theory Spec2Isabelle
  imports Main
begin

section \<open>Play records\<close>

text \<open>
  A \<open>Dayjs\<close> instant is its number of milliseconds since the epoch; \<open>unix()\<close> is the
  number of whole seconds. The polling loop reads instants through \<open>unix()\<close> only.
\<close>

type_synonym dayjs = int

definition unix :: "dayjs \<Rightarrow> int" where
  "unix d = d div 1000"

text \<open>
  \<open>PlayData\<close> and \<open>PlayMeta\<close> of \<open>core/Atomic.ts\<close>, with the fields the polling engine
  reads. An optional field is an \<open>option\<close>. \<open>PlayMeta\<close> is open
  (\<open>[key: string]: any\<close>); \<open>sourceId\<close> is the extra key that \<open>playObjDataMatch\<close> reads.
  \<open>artists\<close> is a list: \<open>playObjDataMatch\<close> reads an absent array as \<open>[]\<close>.
\<close>

record playData =
  artists :: "string list"
  albumArtists :: "string list"
  album :: "string option"
  track :: "string option"
  duration :: "int option"
  playDate :: "dayjs option"

record playMeta =
  source :: "string option"
  trackId :: "string option"
  sourceId :: "string option"
  newFromSource :: "bool option"
  comment :: "string option"

record playObj =
  data :: playData
  meta :: playMeta

subsection \<open>The same-play test (\<open>utils.js\<close>)\<close>

definition playObjDataMatch :: "playObj \<Rightarrow> playObj \<Rightarrow> bool" where
  "playObjDataMatch a b =
     (let aArtists = artists (data a); aAlbum = album (data a); aTrack = track (data a);
          aSource = source (meta a); aSourceId = sourceId (meta a);
          bArtists = artists (data b); bAlbum = album (data b); bTrack = track (data b);
          bSource = source (meta b); bSourceId = sourceId (meta b)
      in if (aSource = bSource \<and> aSourceId \<noteq> None \<and> bSourceId \<noteq> None) \<and> aSourceId \<noteq> bSourceId
         then False
         else if aTrack \<noteq> bTrack then False
         else if aAlbum \<noteq> bAlbum then False
         else if length aArtists \<noteq> length bArtists then False
         else if \<not> list_all (\<lambda>x. x \<in> set bArtists) aArtists
                 \<and> list_all (\<lambda>x. x \<in> set aArtists) bArtists
         then False
         else True)"

subsection \<open>Record validity\<close>

text \<open>\<open>AbstractSource.recentlyPlayedTrackIsValid\<close>: the default.\<close>

definition recentlyPlayedTrackIsValid :: "playObj \<Rightarrow> bool" where
  "recentlyPlayedTrackIsValid playObj = True"

text \<open>
  \<open>YTMusicSource.recentlyPlayedTrackIsValid\<close> returns \<open>playObj.meta.newFromSource\<close>, which
  the caller tests for truthiness: an absent flag counts as false.
\<close>

definition ytm_recentlyPlayedTrackIsValid :: "playObj \<Rightarrow> bool" where
  "ytm_recentlyPlayedTrackIsValid playObj = (newFromSource (meta playObj) = Some True)"

text \<open>Example records.\<close>

definition mkPlay :: "string \<Rightarrow> string \<Rightarrow> string list \<Rightarrow> dayjs option \<Rightarrow> playObj" where
  "mkPlay tid t as pd =
     \<lparr>data = \<lparr>artists = as, albumArtists = [], album = None, track = Some t,
              duration = None, playDate = pd\<rparr>,
      meta = \<lparr>source = Some ''YTMusic'', trackId = Some tid, sourceId = None,
              newFromSource = Some False, comment = None\<rparr>\<rparr>"


section \<open>The polling loop (\<open>AbstractSource.startPolling\<close>)\<close>

text \<open>
  An exception is a value. \<open>TypeError\<close> is what \<open>playDate.unix()\<close> raises when
  \<open>playDate\<close> is undefined; \<open>Thrown\<close> is an exception of the upstream fetch or of the
  scrobble clients.
\<close>

datatype error = TypeError | Thrown string

record scrobbleOptions =
  forceRefresh :: bool
  scrobbleFrom :: string
  scrobbleTo :: "string list"

text \<open>
  What the loop does to the outside is an event: a log line (a template is kept with its
  arguments, not formatted), a sleep in milliseconds, a call of \<open>allClients.scrobble\<close>.
\<close>

datatype logMsg =
    Text string
  | NewTrackMsg playObj
  | NoNewTracksMsg playObj
  | SleepingMsg int
  | ErrorObject error
  | DiffMsg string

datatype event =
    LogInfo logMsg
  | LogDebug logMsg
  | LogWarn logMsg
  | LogError logMsg
  | Sleep int
  | Scrobble "playObj list" scrobbleOptions

text \<open>
  The accumulator of the \<open>reduce\<close> over the fetched plays (\<open>plays\<close>,
  \<open>lastTrackPlayedAt\<close>), with the variables its callback assigns (\<open>newTracksFound\<close>,
  \<open>closeToInterval\<close>) and the lines it logs.
\<close>

record playInfo =
  plays :: "playObj list"
  lastTrackPlayedAt :: dayjs
  newTracksFound :: bool
  closeToInterval :: bool
  logged :: "event list"

text \<open>
  One call of the callback. \<open>lastOuter\<close> is the loop's variable \<open>lastTrackPlayedAt\<close>,
  which the callback compares with: it is assigned after the \<open>reduce\<close> only.
\<close>

definition reduceStep ::
  "(playObj \<Rightarrow> bool) \<Rightarrow> dayjs \<Rightarrow> dayjs \<Rightarrow> playInfo \<Rightarrow> playObj \<Rightarrow> error + playInfo" where
  "reduceStep valid lastOuter nowT acc playObj =
     (if valid playObj then
        (case playDate (data playObj) of
           None \<Rightarrow> Inl TypeError
         | Some pd \<Rightarrow>
             if unix pd > unix lastOuter then
               Inr \<lparr>plays = plays acc @ [playObj\<lparr>meta := (meta playObj)\<lparr>newFromSource := Some True\<rparr>\<rparr>],
                    lastTrackPlayedAt = pd,
                    newTracksFound = True,
                    closeToInterval =
                      (if closeToInterval acc = False then \<bar>unix nowT - unix pd\<bar> < 5
                       else closeToInterval acc),
                    logged = logged acc @ [LogInfo (NewTrackMsg playObj)]\<rparr>
             else Inr (acc\<lparr>plays := plays acc @ [playObj]\<rparr>))
      else Inr acc)"

text \<open>The \<open>reduce\<close>: it stops at the first exception, with what was logged until then.\<close>

fun reducePlays ::
  "(playInfo \<Rightarrow> playObj \<Rightarrow> error + playInfo) \<Rightarrow> playInfo \<Rightarrow> playObj list \<Rightarrow> error option \<times> playInfo" where
  "reducePlays f acc [] = (None, acc)"
| "reducePlays f acc (playObj # rest) =
     (case f acc playObj of
        Inl e \<Rightarrow> (Some e, acc)
      | Inr acc' \<Rightarrow> reducePlays f acc' rest)"

text \<open>The adaptive sleep, in seconds (the end of the loop body).\<close>

definition sleepTimeOf :: "int option \<Rightarrow> int \<Rightarrow> dayjs \<Rightarrow> dayjs \<Rightarrow> int" where
  "sleepTimeOf cfgInterval count nowT lastT =
     (let interval = (case cfgInterval of None \<Rightarrow> 30 | Some i \<Rightarrow> i);
          sleepTime = interval
      in if count > 5 \<and> sleepTime < 600 then
           (let lastPlayToNowSecs = \<bar>unix nowT - unix lastT\<bar>;
                backoffThreshold = min (interval * 10) 600
            in if lastPlayToNowSecs \<ge> backoffThreshold then min (interval * 5) 300
               else sleepTime)
         else sleepTime)"

text \<open>
  The source object (\<open>polling\<close>, \<open>tracksDiscovered\<close>) with the loop's local variables
  and the events so far.
\<close>

record pollerState =
  polling :: bool
  tracksDiscovered :: nat
  curLastTrackPlayedAt :: dayjs
  checkCount :: int
  trace :: "event list"

text \<open>The fixed part of a source: its identity, its configuration, its validity test.\<close>

record sourceDef =
  sourceIdentifier :: string
  clients :: "string list"
  configInterval :: "int option"
  isValid :: "playObj \<Rightarrow> bool"

text \<open>
  What one iteration meets: the result of \<open>getRecentlyPlayed\<close>, the clock reading
  \<open>now\<close>, the scrobble clients, and whether someone cleared \<open>polling\<close> while the
  iteration was suspended.
\<close>

record cycleEnv =
  fetched :: "error + playObj list"
  now :: dayjs
  scrobble :: "playObj list \<Rightarrow> scrobbleOptions \<Rightarrow> error + playObj list"
  stopRequested :: bool

text \<open>
  The rest of an iteration once the \<open>reduce\<close> has returned \<open>info\<close>: the
  close-to-interval delay, the dispatch, the counters, the adaptive sleep. \<open>st1\<close> is the
  state after \<open>checkCount++\<close>. The result is the exception that leaves the iteration (if
  any), the state, and the events of this part.
\<close>

definition finishCycle ::
  "sourceDef \<Rightarrow> cycleEnv \<Rightarrow> pollerState \<Rightarrow> playInfo \<Rightarrow> error option \<times> pollerState \<times> event list" where
  "finishCycle src env st1 info =
     (let playObjs = plays info;
          st2 = st1\<lparr>curLastTrackPlayedAt := lastTrackPlayedAt info\<rparr>;
          ev2 = (if closeToInterval info
                 then [LogInfo (Text ''Track is close to polling interval! Delaying scrobble clients refresh by 10 seconds so other clients have time to scrobble first''),
                       Sleep (10 * 1000)]
                 else []);
          ev3 = ev2
                @ (if newTracksFound info = False
                   then (if length playObjs = 0
                         then [LogDebug (Text ''No new tracks found and no tracks returned from API'')]
                         else [LogDebug (NoNewTracksMsg (last playObjs))])
                   else []);
          st3 = (if newTracksFound info = False then st2 else st2\<lparr>checkCount := 0\<rparr>);
          opts = \<lparr>forceRefresh = closeToInterval info,
                  scrobbleFrom = sourceIdentifier src,
                  scrobbleTo = clients src\<rparr>;
          ev4 = ev3 @ [Scrobble playObjs opts]
      in case scrobble env playObjs opts of
           Inl e \<Rightarrow> (Some e, st3, ev4)
         | Inr scrobbleResult \<Rightarrow>
             (let st4 = (if length scrobbleResult > 0
                         then st3\<lparr>checkCount := 0,
                                  tracksDiscovered := tracksDiscovered st3 + length scrobbleResult\<rparr>
                         else st3);
                  sleepTime = sleepTimeOf (configInterval src) (checkCount st4) (now env)
                                (curLastTrackPlayedAt st4)
              in (None,
                  st4\<lparr>polling := (if stopRequested env then False else polling st4)\<rparr>,
                  ev4 @ [LogDebug (SleepingMsg sleepTime), Sleep (sleepTime * 1000)])))"

text \<open>
  One iteration of the \<open>while\<close> loop, after the \<open>polling\<close> test: the fetch, the
  \<open>reduce\<close> over the fetched plays, and the rest. The result is the exception that
  leaves the iteration (if any), the state, and the events of the iteration.
\<close>

definition pollCycle ::
  "sourceDef \<Rightarrow> cycleEnv \<Rightarrow> pollerState \<Rightarrow> error option \<times> pollerState \<times> event list" where
  "pollCycle src env st =
     (case fetched env of
        Inl e \<Rightarrow> (Some e, st, [LogDebug (Text ''Refreshing recently played'')])
      | Inr fetchedPlays \<Rightarrow>
          (let st1 = st\<lparr>checkCount := checkCount st + 1\<rparr>;
               ev1 = [LogDebug (Text ''Refreshing recently played'')]
           in case reducePlays (reduceStep (isValid src) (curLastTrackPlayedAt st) (now env))
                     \<lparr>plays = [], lastTrackPlayedAt = curLastTrackPlayedAt st,
                      newTracksFound = False, closeToInterval = False, logged = []\<rparr>
                     fetchedPlays of
                (Some e, info) \<Rightarrow> (Some e, st1, ev1 @ logged info)
              | (None, info) \<Rightarrow>
                  (case finishCycle src env st1 info of
                     (raised, st', evs) \<Rightarrow> (raised, st', ev1 @ logged info @ evs))))"

text \<open>
  The \<open>while (true)\<close> loop over the iterations the environment supplies. It is
  \<open>Running\<close> when they are used up and the loop has not left; otherwise it is \<open>Left\<close>,
  by \<open>break\<close> (no exception) or by an exception.
\<close>

datatype run = Running pollerState | Left "error option" pollerState

fun pollLoop :: "sourceDef \<Rightarrow> cycleEnv list \<Rightarrow> pollerState \<Rightarrow> run" where
  "pollLoop src [] st =
     (if polling st = False
      then Left None (st\<lparr>trace := trace st @ [LogInfo (Text ''Stopped polling due to user input'')]\<rparr>)
      else Running st)"
| "pollLoop src (env # envs) st =
     (if polling st = False
      then Left None (st\<lparr>trace := trace st @ [LogInfo (Text ''Stopped polling due to user input'')]\<rparr>)
      else (case pollCycle src env st of
              (Some e, st', evs) \<Rightarrow> Left (Some e) (st'\<lparr>trace := trace st' @ evs\<rparr>)
            | (None, st', evs) \<Rightarrow> pollLoop src envs (st'\<lparr>trace := trace st' @ evs\<rparr>)))"

text \<open>
  \<open>startPolling\<close>: the guard, the initialisation (\<open>startNow\<close> is the clock reading of
  \<open>let lastTrackPlayedAt = dayjs()\<close>), the loop inside \<open>try\<close>, and the \<open>catch\<close>.
  \<open>Left (Some e)\<close> as its result would be an exception raised to the caller.
\<close>

definition startPolling :: "sourceDef \<Rightarrow> dayjs \<Rightarrow> cycleEnv list \<Rightarrow> pollerState \<Rightarrow> run" where
  "startPolling src startNow envs st =
     (if polling st = True then Left None st
      else (case pollLoop src envs
                   (st\<lparr>trace := trace st @ [LogInfo (Text ''Polling started'')],
                       curLastTrackPlayedAt := startNow, checkCount := 0, polling := True\<rparr>) of
              Running st' \<Rightarrow> Running st'
            | Left None st' \<Rightarrow> Left None st'
            | Left (Some e) st' \<Rightarrow>
                Left None (st'\<lparr>trace := trace st' @ [LogError (Text ''Error occurred while polling''),
                                                      LogError (ErrorObject e)],
                               polling := False\<rparr>)))"


section \<open>The recent-window reconciler (\<open>YTMusicSource.getRecentlyPlayed\<close>)\<close>

text \<open>The fields of a \<open>MusicResponsiveListItem\<close> that \<open>formatPlayObj\<close> reads.\<close>

record listItem =
  itemId :: "string option"
  title :: "string option"
  albumData :: "string option"
  artistsData :: "string list option"
  authorData :: "string list option"
  dur :: "int option"

definition startOfMinute :: "dayjs \<Rightarrow> dayjs" where
  "startOfMinute d = d - d mod 60000"

text \<open>
  \<open>YTMusicSource.formatPlayObj\<close>; \<open>nowT\<close> is the clock, read when \<open>newFromSource\<close> is
  set only.
\<close>

definition formatPlayObj :: "dayjs \<Rightarrow> listItem \<Rightarrow> bool \<Rightarrow> string option \<Rightarrow> playObj" where
  "formatPlayObj nowT obj newFromSrc shelf =
     \<lparr>data = \<lparr>artists = (case artistsData obj of
                           Some a \<Rightarrow> a
                         | None \<Rightarrow> (case authorData obj of Some a \<Rightarrow> a | None \<Rightarrow> [])),
              albumArtists = (case (artistsData obj, authorData obj) of
                                (Some a, Some b) \<Rightarrow> b
                              | _ \<Rightarrow> []),
              album = albumData obj,
              track = title obj,
              duration = dur obj,
              playDate = (if newFromSrc then Some (startOfMinute nowT) else None)\<rparr>,
      meta = \<lparr>source = Some ''YTMusic'',
              trackId = itemId obj,
              sourceId = None,
              newFromSource = Some newFromSrc,
              comment = shelf\<rparr>\<rparr>"

text \<open>
  The functions \<open>getRecentlyPlayed\<close> imports from \<open>utils/PlayComparisonUtils.js\<close>. That
  file is not among the sources, so they are parameters: every statement below holds for
  whatever they compute. The second component of a \<open>[boolean, PlayObject[]]\<close> result is
  the list.
\<close>

record 'd compareUtils =
  playsAreSortConsistent :: "playObj list \<Rightarrow> playObj list \<Rightarrow> bool"
  playsAreBumpedOnly :: "playObj list \<Rightarrow> playObj list \<Rightarrow> bool \<times> playObj list"
  playsAreAddedOnly :: "playObj list \<Rightarrow> playObj list \<Rightarrow> bool \<times> playObj list"
  getPlaysDiff :: "playObj list \<Rightarrow> playObj list \<Rightarrow> 'd"
  humanReadableDiff :: "playObj list \<Rightarrow> playObj list \<Rightarrow> 'd \<Rightarrow> string"

text \<open>The source object of a \<open>YTMusicSource\<close>: a poller with its window.\<close>

record ytMusicSource = pollerState +
  recentlyPlayed :: "playObj list"

text \<open>\<open>plays\<close>: the first 20 list items, formatted with \<open>newFromSource: false\<close>.\<close>

definition recentPlays :: "listItem list \<Rightarrow> playObj list" where
  "recentPlays items = take 20 (map (\<lambda>x. formatPlayObj 0 x False None) items)"

text \<open>
  The final \<open>map\<close> over the new plays. \<open>clock index\<close> is the reading of \<open>dayjs()\<close>
  taken for the play at \<open>index\<close>.
\<close>

definition stampNewPlays :: "(nat \<Rightarrow> dayjs) \<Rightarrow> playObj list \<Rightarrow> playObj list" where
  "stampNewPlays clock newPlays =
     map (\<lambda>(index, x).
            \<lparr>data = (data x)\<lparr>playDate := Some (startOfMinute (clock index) + (int index + 1) * 1000)\<rparr>,
             meta = (meta x)\<lparr>newFromSource := Some True\<rparr>\<rparr>)
         (enumerate 0 newPlays)"

text \<open>
  \<open>getRecentlyPlayed\<close>. \<open>history\<close> is what \<open>getLibraryHistory\<close> gives (an exception, or
  the list items of the parsed page), \<open>logDiff\<close> is \<open>config.options?.logDiff === true\<close>.
\<close>

definition getRecentlyPlayed ::
  "'d compareUtils \<Rightarrow> bool \<Rightarrow> (nat \<Rightarrow> dayjs) \<Rightarrow> error + listItem list \<Rightarrow> ytMusicSource
     \<Rightarrow> (error + playObj list) \<times> ytMusicSource" where
  "getRecentlyPlayed u logDiff clock history s =
     (case history of
        Inl e \<Rightarrow> (Inl e, s)
      | Inr items \<Rightarrow>
          (let curPlays = recentPlays items in
           if polling s = False then (Inr curPlays, s\<lparr>recentlyPlayed := curPlays\<rparr>)
           else if playsAreSortConsistent u (recentlyPlayed s) curPlays then (Inr [], s)
           else
             (let bumpResults = playsAreBumpedOnly u (recentlyPlayed s) curPlays;
                  (newPlays, warnMsg) =
                    (if fst bumpResults = True then (snd bumpResults, None)
                     else (let addResults = playsAreAddedOnly u (recentlyPlayed s) curPlays in
                           if fst addResults = True then (rev (snd addResults), None)
                           else ([], Some ''YTM History returned temporally inconsistent order, resetting watched history to new list.'')));
                  logs =
                    (if warnMsg \<noteq> None \<or> (length newPlays > 0 \<and> logDiff = True) then
                       (let playsDiff = getPlaysDiff u (recentlyPlayed s) curPlays;
                            humanDiff = humanReadableDiff u (recentlyPlayed s) curPlays playsDiff;
                            diffMsg = DiffMsg humanDiff
                        in case warnMsg of
                             Some w \<Rightarrow> [LogWarn (Text w), LogWarn diffMsg]
                           | None \<Rightarrow> [LogDebug diffMsg])
                     else [])
              in (Inr (stampNewPlays clock newPlays),
                  s\<lparr>trace := trace s @ logs, recentlyPlayed := curPlays\<rparr>))))"

text \<open>
  Sample comparison functions, concrete inputs for the examples only: plays are compared
  by \<open>trackId\<close>, equal windows are sort-consistent, nothing is a bump, and a window is
  added-only when it is the stored one behind a non-empty prefix.
\<close>

definition sampleUtils :: "unit compareUtils" where
  "sampleUtils =
     \<lparr>playsAreSortConsistent =
        (\<lambda>prev cur. map (\<lambda>x. trackId (meta x)) prev = map (\<lambda>x. trackId (meta x)) cur),
      playsAreBumpedOnly = (\<lambda>prev cur. (False, [])),
      playsAreAddedOnly =
        (\<lambda>prev cur.
           (let n = length cur - length prev in
            if 0 < n \<and> map (\<lambda>x. trackId (meta x)) (drop n cur) = map (\<lambda>x. trackId (meta x)) prev
            then (True, take n cur) else (False, []))),
      getPlaysDiff = (\<lambda>prev cur. ()),
      humanReadableDiff = (\<lambda>prev cur d. ''diff'')\<rparr>"

definition mkItem :: "string \<Rightarrow> listItem" where
  "mkItem t = \<lparr>itemId = Some t, title = Some t, albumData = None, artistsData = None,
               authorData = None, dur = None\<rparr>"

definition mkSource :: "bool \<Rightarrow> playObj list \<Rightarrow> ytMusicSource" where
  "mkSource p window =
     \<lparr>polling = p, tracksDiscovered = 0, curLastTrackPlayedAt = 0, checkCount = 0, trace = [],
      recentlyPlayed = window\<rparr>"

section \<open>Notions the statements use\<close>

text \<open>
  A fetched play is new in a cycle when the validity test accepts it and its play date,
  in whole seconds, is after \<open>lastTrackPlayedAt\<close> as it was when the cycle began.
\<close>

definition isNewPlay :: "(playObj \<Rightarrow> bool) \<Rightarrow> dayjs \<Rightarrow> playObj \<Rightarrow> bool" where
  "isNewPlay valid lastT p =
     (valid p \<and> (case playDate (data p) of None \<Rightarrow> False | Some pd \<Rightarrow> unix pd > unix lastT))"

text \<open>A play the validity test accepts carries a play date (no \<open>TypeError\<close> in the cycle).\<close>

definition datedWhenValid :: "(playObj \<Rightarrow> bool) \<Rightarrow> playObj \<Rightarrow> bool" where
  "datedWhenValid valid p = (if valid p then playDate (data p) \<noteq> None else True)"

text \<open>The play date of a play in whole seconds (0 when it has none).\<close>

definition playUnix :: "playObj \<Rightarrow> int" where
  "playUnix p = (case playDate (data p) of None \<Rightarrow> 0 | Some pd \<Rightarrow> unix pd)"

text \<open>The suspensions and dispatches among the events, in order.\<close>

fun isEffect :: "event \<Rightarrow> bool" where
  "isEffect (Sleep t) = True"
| "isEffect (Scrobble ps opts) = True"
| "isEffect e = False"

definition effects :: "event list \<Rightarrow> event list" where
  "effects evs = filter isEffect evs"

text \<open>The plays announced as new tracks among the events, in order.\<close>

fun newPlaysOf :: "event list \<Rightarrow> playObj list" where
  "newPlaysOf [] = []"
| "newPlaysOf (LogInfo (NewTrackMsg p) # evs) = p # newPlaysOf evs"
| "newPlaysOf (e # evs) = newPlaysOf evs"

text \<open>The sleeps among the events, in milliseconds and in order.\<close>

fun sleepsOf :: "event list \<Rightarrow> int list" where
  "sleepsOf [] = []"
| "sleepsOf (Sleep t # evs) = t # sleepsOf evs"
| "sleepsOf (e # evs) = sleepsOf evs"

text \<open>The state a run of the loop has reached.\<close>

fun runState :: "run \<Rightarrow> pollerState" where
  "runState (Running st) = st"
| "runState (Left r st) = st"

text \<open>Sample inputs for the examples.\<close>

definition sampleSource :: sourceDef where
  "sampleSource =
     \<lparr>sourceIdentifier = ''Lastfm - sample'', clients = [''maloja''], configInterval = Some 30,
      isValid = recentlyPlayedTrackIsValid\<rparr>"

definition idleState :: pollerState where
  "idleState = \<lparr>polling = False, tracksDiscovered = 0, curLastTrackPlayedAt = 0, checkCount = 0,
                trace = []\<rparr>"

definition mkEnv :: "error + playObj list \<Rightarrow> dayjs \<Rightarrow> cycleEnv" where
  "mkEnv f t = \<lparr>fetched = f, now = t, scrobble = (\<lambda>ps opts. Inr (filter (\<lambda>p. newFromSource (meta p) = Some True) ps)),
               stopRequested = False\<rparr>"

section \<open>Record validity and the same-play test\<close>

text \<open>
  C6, as the code has it: the default validity test accepts every play record, with or
  without a \<open>playDate\<close>; the test of the YTMusic source accepts a record exactly when
  \<open>meta.newFromSource\<close> is true.
\<close>

theorem validity_predicates:
  "recentlyPlayedTrackIsValid p
   \<and> (ytm_recentlyPlayedTrackIsValid p = (newFromSource (meta p) = Some True))"
  by (simp add: recentlyPlayedTrackIsValid_def ytm_recentlyPlayedTrackIsValid_def)

text \<open>
  C6 as stated fails: the default test accepts a record that has no \<open>playDate\<close>.
\<close>

theorem default_validity_counterexample:
  "\<not> (recentlyPlayedTrackIsValid (mkPlay ''a1'' ''A'' [''x''] None)
        = (playDate (data (mkPlay ''a1'' ''A'' [''x''] None)) \<noteq> None))"
  by (simp add: recentlyPlayedTrackIsValid_def mkPlay_def)

lemma list_all_member_iff: "list_all (\<lambda>x. x \<in> set ys) xs = (set xs \<subseteq> set ys)"
  by (auto simp: list_all_iff)

lemma playObjDataMatch_iff:
  "playObjDataMatch a b =
     (\<not> (source (meta a) = source (meta b) \<and> sourceId (meta a) \<noteq> None
          \<and> sourceId (meta b) \<noteq> None \<and> sourceId (meta a) \<noteq> sourceId (meta b))
      \<and> track (data a) = track (data b) \<and> album (data a) = album (data b)
      \<and> length (artists (data a)) = length (artists (data b))
      \<and> (set (artists (data a)) \<subseteq> set (artists (data b))
          \<or> \<not> set (artists (data b)) \<subseteq> set (artists (data a))))"
  unfolding playObjDataMatch_def Let_def list_all_member_iff by auto

text \<open>
  C7, as the code has it: the same-play test succeeds when track and album are equal, the
  artist lists have the same length and the same set of names, and the two plays do not
  carry different \<open>meta.sourceId\<close> values under one \<open>meta.source\<close>. It fails when track,
  album or the number of artists differ, and when both plays carry a \<open>sourceId\<close> under the
  same source and the two differ.
\<close>

theorem playObjDataMatch_same_play:
  "(playObjDataMatch a b \<longrightarrow>
      track (data a) = track (data b) \<and> album (data a) = album (data b)
      \<and> length (artists (data a)) = length (artists (data b))
      \<and> \<not> (source (meta a) = source (meta b) \<and> sourceId (meta a) \<noteq> None
             \<and> sourceId (meta b) \<noteq> None \<and> sourceId (meta a) \<noteq> sourceId (meta b)))
   \<and> (track (data a) = track (data b) \<and> album (data a) = album (data b)
      \<and> length (artists (data a)) = length (artists (data b))
      \<and> set (artists (data a)) = set (artists (data b))
      \<and> \<not> (source (meta a) = source (meta b) \<and> sourceId (meta a) \<noteq> None
             \<and> sourceId (meta b) \<noteq> None \<and> sourceId (meta a) \<noteq> sourceId (meta b))
      \<longrightarrow> playObjDataMatch a b)"
  unfolding playObjDataMatch_iff by auto

theorem playObjDataMatch_same_play_witness:
  "track (data (mkPlay ''a1'' ''A'' [''x'', ''y''] None)) = track (data (mkPlay ''a2'' ''A'' [''y'', ''x''] (Some 5)))
   \<and> album (data (mkPlay ''a1'' ''A'' [''x'', ''y''] None)) = album (data (mkPlay ''a2'' ''A'' [''y'', ''x''] (Some 5)))
   \<and> set (artists (data (mkPlay ''a1'' ''A'' [''x'', ''y''] None)))
       = set (artists (data (mkPlay ''a2'' ''A'' [''y'', ''x''] (Some 5))))
   \<and> playObjDataMatch (mkPlay ''a1'' ''A'' [''x'', ''y''] None) (mkPlay ''a2'' ''A'' [''y'', ''x''] (Some 5))
   \<and> length (artists (data (mkPlay ''a1'' ''A'' [''x''] None)))
       \<noteq> length (artists (data (mkPlay ''a1'' ''A'' [''x'', ''y''] None)))
   \<and> \<not> playObjDataMatch (mkPlay ''a1'' ''A'' [''x''] None) (mkPlay ''a1'' ''A'' [''x'', ''y''] None)"
  using playObjDataMatch_same_play [of "mkPlay ''a1'' ''A'' [''x'', ''y''] None"
                                       "mkPlay ''a2'' ''A'' [''y'', ''x''] (Some 5)"]
        playObjDataMatch_same_play [of "mkPlay ''a1'' ''A'' [''x''] None"
                                       "mkPlay ''a1'' ''A'' [''x'', ''y''] None"]
  by (auto simp: mkPlay_def)

text \<open>
  C7 as stated fails: two plays with the same \<open>(meta.source, meta.trackId)\<close> and
  different titles are not the same play for the code.
\<close>

theorem playObjDataMatch_id_counterexample:
  "source (meta (mkPlay ''a1'' ''A'' [''x''] None)) = source (meta (mkPlay ''a1'' ''B'' [''x''] None))
   \<and> trackId (meta (mkPlay ''a1'' ''A'' [''x''] None)) = trackId (meta (mkPlay ''a1'' ''B'' [''x''] None))
   \<and> \<not> playObjDataMatch (mkPlay ''a1'' ''A'' [''x''] None) (mkPlay ''a1'' ''B'' [''x''] None)"
  by (simp add: mkPlay_def playObjDataMatch_def)

text \<open>
  Where the artist lists have the same length and different names, the test depends on
  the order of its arguments: the condition \<open>!a.every(..) && b.every(..)\<close> negates its
  first half only.
\<close>

lemma playObjDataMatch_artists_order:
  "playObjDataMatch (mkPlay ''a1'' ''A'' [''x'', ''x''] None) (mkPlay ''a1'' ''A'' [''x'', ''y''] None)
   \<and> \<not> playObjDataMatch (mkPlay ''a1'' ''A'' [''x'', ''y''] None) (mkPlay ''a1'' ''A'' [''x'', ''x''] None)"
  by (simp add: mkPlay_def playObjDataMatch_def)

section \<open>The reconciler's classification\<close>

text \<open>\<open>getRecentlyPlayed\<close> while polling, branch by branch.\<close>

lemma getRecentlyPlayed_polling:
  assumes "polling s"
  shows "getRecentlyPlayed u logDiff clock (Inr items) s =
     (let curPlays = recentPlays items; prev = recentlyPlayed s in
      if playsAreSortConsistent u prev curPlays then (Inr [], s)
      else if fst (playsAreBumpedOnly u prev curPlays) then
        (Inr (stampNewPlays clock (snd (playsAreBumpedOnly u prev curPlays))),
         s\<lparr>trace := trace s @ (if 0 < length (snd (playsAreBumpedOnly u prev curPlays)) \<and> logDiff
                                then [LogDebug (DiffMsg (humanReadableDiff u prev curPlays (getPlaysDiff u prev curPlays)))]
                                else []),
           recentlyPlayed := curPlays\<rparr>)
      else if fst (playsAreAddedOnly u prev curPlays) then
        (Inr (stampNewPlays clock (rev (snd (playsAreAddedOnly u prev curPlays)))),
         s\<lparr>trace := trace s @ (if 0 < length (snd (playsAreAddedOnly u prev curPlays)) \<and> logDiff
                                then [LogDebug (DiffMsg (humanReadableDiff u prev curPlays (getPlaysDiff u prev curPlays)))]
                                else []),
           recentlyPlayed := curPlays\<rparr>)
      else
        (Inr [],
         s\<lparr>trace := trace s @
              [LogWarn (Text ''YTM History returned temporally inconsistent order, resetting watched history to new list.''),
               LogWarn (DiffMsg (humanReadableDiff u prev curPlays (getPlaysDiff u prev curPlays)))],
           recentlyPlayed := curPlays\<rparr>))"
  using assms unfolding getRecentlyPlayed_def Let_def
  by (simp add: stampNewPlays_def)

text \<open>
  C1: while polling, the reconciler tests sort-consistent first, then bumped-only, then
  added-only. A sort-consistent window yields no new plays, whatever the later tests say;
  a bumped-only window yields the bumped plays; an added-only window yields the added
  plays reversed; and when none applies it yields no new plays, logs the warning and the
  human-readable diff as a second warning, and stores the current window as the previous
  one.
\<close>

theorem reconciler_priority_order:
  assumes "polling s"
  shows "(playsAreSortConsistent u (recentlyPlayed s) (recentPlays items) \<longrightarrow>
            fst (getRecentlyPlayed u logDiff clock (Inr items) s) = Inr [])
         \<and> (\<not> playsAreSortConsistent u (recentlyPlayed s) (recentPlays items)
            \<and> fst (playsAreBumpedOnly u (recentlyPlayed s) (recentPlays items)) \<longrightarrow>
            fst (getRecentlyPlayed u logDiff clock (Inr items) s)
              = Inr (stampNewPlays clock (snd (playsAreBumpedOnly u (recentlyPlayed s) (recentPlays items)))))
         \<and> (\<not> playsAreSortConsistent u (recentlyPlayed s) (recentPlays items)
            \<and> \<not> fst (playsAreBumpedOnly u (recentlyPlayed s) (recentPlays items))
            \<and> fst (playsAreAddedOnly u (recentlyPlayed s) (recentPlays items)) \<longrightarrow>
            fst (getRecentlyPlayed u logDiff clock (Inr items) s)
              = Inr (stampNewPlays clock (rev (snd (playsAreAddedOnly u (recentlyPlayed s) (recentPlays items))))))
         \<and> (\<not> playsAreSortConsistent u (recentlyPlayed s) (recentPlays items)
            \<and> \<not> fst (playsAreBumpedOnly u (recentlyPlayed s) (recentPlays items))
            \<and> \<not> fst (playsAreAddedOnly u (recentlyPlayed s) (recentPlays items)) \<longrightarrow>
            getRecentlyPlayed u logDiff clock (Inr items) s
              = (Inr [],
                 s\<lparr>trace := trace s @
                     [LogWarn (Text ''YTM History returned temporally inconsistent order, resetting watched history to new list.''),
                      LogWarn (DiffMsg (humanReadableDiff u (recentlyPlayed s) (recentPlays items)
                                          (getPlaysDiff u (recentlyPlayed s) (recentPlays items))))],
                   recentlyPlayed := recentPlays items\<rparr>))"
  using assms by (simp add: getRecentlyPlayed_polling Let_def)

theorem reconciler_priority_order_witness:
  "polling (mkSource True (recentPlays [mkItem ''A'', mkItem ''B'']))
   \<and> playsAreSortConsistent sampleUtils (recentPlays [mkItem ''A'', mkItem ''B''])
         (recentPlays [mkItem ''A'', mkItem ''B''])
   \<and> fst (getRecentlyPlayed sampleUtils False (\<lambda>k. 125000)
          (Inr [mkItem ''A'', mkItem ''B''])
          (mkSource True (recentPlays [mkItem ''A'', mkItem ''B'']))) = Inr []
   \<and> \<not> playsAreSortConsistent sampleUtils (recentPlays [mkItem ''A'', mkItem ''B'', mkItem ''C''])
         (recentPlays [mkItem ''C'', mkItem ''A'', mkItem ''B''])
   \<and> \<not> fst (playsAreBumpedOnly sampleUtils (recentPlays [mkItem ''A'', mkItem ''B'', mkItem ''C''])
         (recentPlays [mkItem ''C'', mkItem ''A'', mkItem ''B'']))
   \<and> \<not> fst (playsAreAddedOnly sampleUtils (recentPlays [mkItem ''A'', mkItem ''B'', mkItem ''C''])
         (recentPlays [mkItem ''C'', mkItem ''A'', mkItem ''B'']))
   \<and> getRecentlyPlayed sampleUtils False (\<lambda>k. 125000)
          (Inr [mkItem ''C'', mkItem ''A'', mkItem ''B''])
          (mkSource True (recentPlays [mkItem ''A'', mkItem ''B'', mkItem ''C'']))
      = (Inr [],
         (mkSource True (recentPlays [mkItem ''C'', mkItem ''A'', mkItem ''B'']))
           \<lparr>trace := [LogWarn (Text ''YTM History returned temporally inconsistent order, resetting watched history to new list.''),
                      LogWarn (DiffMsg ''diff'')]\<rparr>)"
  using reconciler_priority_order
    [of "mkSource True (recentPlays [mkItem ''A'', mkItem ''B''])" sampleUtils
        "[mkItem ''A'', mkItem ''B'']" False "\<lambda>k. 125000"]
    reconciler_priority_order
    [of "mkSource True (recentPlays [mkItem ''A'', mkItem ''B'', mkItem ''C''])" sampleUtils
        "[mkItem ''C'', mkItem ''A'', mkItem ''B'']" False "\<lambda>k. 125000"]
  by (simp add: sampleUtils_def recentPlays_def mkItem_def mkSource_def formatPlayObj_def)

text \<open>
  C10: while polling, a sort-consistent fetch returns the empty list at once and leaves
  the source object, \<open>recentlyPlayed\<close> included, as it was; in every other case
  \<open>recentlyPlayed\<close> is the current list when the result is returned.
\<close>

theorem window_replaced_unless_sort_consistent:
  assumes "polling s"
  shows "(playsAreSortConsistent u (recentlyPlayed s) (recentPlays items) \<longrightarrow>
            getRecentlyPlayed u logDiff clock (Inr items) s = (Inr [], s))
         \<and> (\<not> playsAreSortConsistent u (recentlyPlayed s) (recentPlays items) \<longrightarrow>
            recentlyPlayed (snd (getRecentlyPlayed u logDiff clock (Inr items) s)) = recentPlays items)"
  using assms by (simp add: getRecentlyPlayed_polling Let_def)

theorem window_replaced_unless_sort_consistent_witness:
  "polling (mkSource True (recentPlays [mkItem ''A'', mkItem ''B'']))
   \<and> playsAreSortConsistent sampleUtils (recentPlays [mkItem ''A'', mkItem ''B''])
         (recentPlays [mkItem ''A'', mkItem ''B''])
   \<and> getRecentlyPlayed sampleUtils False (\<lambda>k. 125000)
          (Inr [mkItem ''A'', mkItem ''B''])
          (mkSource True (recentPlays [mkItem ''A'', mkItem ''B'']))
     = (Inr [], mkSource True (recentPlays [mkItem ''A'', mkItem ''B'']))
   \<and> \<not> playsAreSortConsistent sampleUtils (recentPlays [mkItem ''C''])
         (recentPlays [mkItem ''A'', mkItem ''B'', mkItem ''C''])
   \<and> recentlyPlayed (snd (getRecentlyPlayed sampleUtils False (\<lambda>k. 125000)
          (Inr [mkItem ''A'', mkItem ''B'', mkItem ''C''])
          (mkSource True (recentPlays [mkItem ''C''])))) = recentPlays [mkItem ''A'', mkItem ''B'', mkItem ''C'']"
  using window_replaced_unless_sort_consistent
    [of "mkSource True (recentPlays [mkItem ''A'', mkItem ''B''])" sampleUtils
        "[mkItem ''A'', mkItem ''B'']" False "\<lambda>k. 125000"]
    window_replaced_unless_sort_consistent
    [of "mkSource True (recentPlays [mkItem ''C''])" sampleUtils
        "[mkItem ''A'', mkItem ''B'', mkItem ''C'']" False "\<lambda>k. 125000"]
  by (simp add: sampleUtils_def recentPlays_def mkItem_def mkSource_def formatPlayObj_def)

subsection \<open>The synthesized play dates\<close>

lemma startOfMinute_mono: "a \<le> b \<Longrightarrow> startOfMinute a \<le> startOfMinute b"
proof -
  assume ab: "a \<le> b"
  have eq: "\<And>d::int. d - d mod 60000 = (d div 60000) * 60000"
    by (simp add: minus_mod_eq_div_mult)
  have "a div 60000 \<le> b div 60000" using ab by (simp add: zdiv_mono1)
  then show ?thesis unfolding startOfMinute_def eq by simp
qed

lemma stampNewPlays_length: "length (stampNewPlays clock xs) = length xs"
  by (simp add: stampNewPlays_def)

lemma stampNewPlays_nth:
  "k < length xs \<Longrightarrow>
   stampNewPlays clock xs ! k =
     \<lparr>data = (data (xs ! k))\<lparr>playDate := Some (startOfMinute (clock k) + (int k + 1) * 1000)\<rparr>,
      meta = (meta (xs ! k))\<lparr>newFromSource := Some True\<rparr>\<rparr>"
  by (simp add: stampNewPlays_def nth_enumerate_eq)

text \<open>
  C2: when the window is classified added-only (neither sort-consistent nor bumped-only,
  and \<open>playsAreAddedOnly\<close> answers true with the prepended plays, newest first as they
  stand in the window), the reconciler emits exactly these plays in the reverse, that is
  oldest-first, order. The play at index \<open>k\<close> of the emitted list gets the play date
  minute-truncated now plus \<open>k + 1\<close> seconds and \<open>newFromSource = true\<close>; with a clock that
  does not run backwards the play dates of the batch are strictly increasing.
\<close>

theorem added_only_emits_prepended_oldest_first:
  assumes "polling s"
    and "\<not> playsAreSortConsistent u (recentlyPlayed s) (recentPlays items)"
    and "\<not> fst (playsAreBumpedOnly u (recentlyPlayed s) (recentPlays items))"
    and "playsAreAddedOnly u (recentlyPlayed s) (recentPlays items) = (True, prepended)"
  shows "\<exists>out. fst (getRecentlyPlayed u logDiff clock (Inr items) s) = Inr out
           \<and> length out = length prepended
           \<and> (\<forall>k. k < length out \<longrightarrow>
                 out ! k = \<lparr>data = (data (rev prepended ! k))
                                    \<lparr>playDate := Some (startOfMinute (clock k) + (int k + 1) * 1000)\<rparr>,
                            meta = (meta (rev prepended ! k))\<lparr>newFromSource := Some True\<rparr>\<rparr>)
           \<and> ((\<forall>i j. i \<le> j \<longrightarrow> clock i \<le> clock j) \<longrightarrow>
                (\<forall>i j. i < j \<and> j < length out \<longrightarrow>
                   (\<exists>a b. playDate (data (out ! i)) = Some a \<and> playDate (data (out ! j)) = Some b \<and> a < b)))"
proof -
  let ?out = "stampNewPlays clock (rev prepended)"
  have res: "fst (getRecentlyPlayed u logDiff clock (Inr items) s) = Inr ?out"
    using assms by (simp add: getRecentlyPlayed_polling Let_def)
  have len: "length ?out = length prepended" by (simp add: stampNewPlays_length)
  have nth: "?out ! k = \<lparr>data = (data (rev prepended ! k))
                          \<lparr>playDate := Some (startOfMinute (clock k) + (int k + 1) * 1000)\<rparr>,
                  meta = (meta (rev prepended ! k))\<lparr>newFromSource := Some True\<rparr>\<rparr>"
    if "k < length ?out" for k
    using that by (simp add: stampNewPlays_length stampNewPlays_nth)
  have date: "playDate (data (?out ! k)) = Some (startOfMinute (clock k) + (int k + 1) * 1000)"
    if "k < length ?out" for k
    by (simp add: nth [OF that])
  have incr: "\<exists>a b. playDate (data (?out ! i)) = Some a \<and> playDate (data (?out ! j)) = Some b \<and> a < b"
    if mono: "\<forall>i j. i \<le> j \<longrightarrow> clock i \<le> clock j" and ij: "i < j \<and> j < length ?out" for i j
  proof -
    have "clock i \<le> clock j" using mono ij by simp
    then have "startOfMinute (clock i) \<le> startOfMinute (clock j)" by (rule startOfMinute_mono)
    then have lt: "startOfMinute (clock i) + (int i + 1) * 1000 < startOfMinute (clock j) + (int j + 1) * 1000"
      using ij by simp
    have i: "i < length ?out" and j: "j < length ?out" using ij by simp_all
    show ?thesis using date [OF i] date [OF j] lt by blast
  qed
  show ?thesis
  proof (intro exI [of _ ?out] conjI allI impI)
    show "fst (getRecentlyPlayed u logDiff clock (Inr items) s) = Inr ?out" by (rule res)
    show "length ?out = length prepended" by (rule len)
    show "?out ! k = \<lparr>data = (data (rev prepended ! k))
                          \<lparr>playDate := Some (startOfMinute (clock k) + (int k + 1) * 1000)\<rparr>,
                  meta = (meta (rev prepended ! k))\<lparr>newFromSource := Some True\<rparr>\<rparr>"
      if "k < length ?out" for k by (rule nth [OF that])
    show "\<exists>a b. playDate (data (?out ! i)) = Some a \<and> playDate (data (?out ! j)) = Some b \<and> a < b"
      if "\<forall>i j. i \<le> j \<longrightarrow> clock i \<le> clock j" and "i < j \<and> j < length ?out" for i j
      by (rule incr [OF that])
  qed
qed

theorem added_only_emits_prepended_oldest_first_witness:
  "polling (mkSource True (recentPlays [mkItem ''C'', mkItem ''D'']))
   \<and> \<not> playsAreSortConsistent sampleUtils (recentPlays [mkItem ''C'', mkItem ''D''])
         (recentPlays [mkItem ''A'', mkItem ''B'', mkItem ''C'', mkItem ''D''])
   \<and> \<not> fst (playsAreBumpedOnly sampleUtils (recentPlays [mkItem ''C'', mkItem ''D''])
         (recentPlays [mkItem ''A'', mkItem ''B'', mkItem ''C'', mkItem ''D'']))
   \<and> playsAreAddedOnly sampleUtils (recentPlays [mkItem ''C'', mkItem ''D''])
         (recentPlays [mkItem ''A'', mkItem ''B'', mkItem ''C'', mkItem ''D''])
       = (True, recentPlays [mkItem ''A'', mkItem ''B''])
   \<and> fst (getRecentlyPlayed sampleUtils False (\<lambda>k. 125000 + int k)
          (Inr [mkItem ''A'', mkItem ''B'', mkItem ''C'', mkItem ''D''])
          (mkSource True (recentPlays [mkItem ''C'', mkItem ''D''])))
   = Inr [(mkPlay ''B'' ''B'' [] (Some 121000))\<lparr>meta := (meta (mkPlay ''B'' ''B'' [] None))\<lparr>newFromSource := Some True\<rparr>\<rparr>,
          (mkPlay ''A'' ''A'' [] (Some 122000))\<lparr>meta := (meta (mkPlay ''A'' ''A'' [] None))\<lparr>newFromSource := Some True\<rparr>\<rparr>]"
  using added_only_emits_prepended_oldest_first
    [of "mkSource True (recentPlays [mkItem ''C'', mkItem ''D''])" sampleUtils
        "[mkItem ''A'', mkItem ''B'', mkItem ''C'', mkItem ''D'']"
        "recentPlays [mkItem ''A'', mkItem ''B'']" False "\<lambda>k. 125000 + int k"]
  by (simp add: getRecentlyPlayed_def sampleUtils_def recentPlays_def mkItem_def mkSource_def
        formatPlayObj_def mkPlay_def stampNewPlays_def startOfMinute_def enumerate_eq_zip upt_rec)

section \<open>The polling loop: lemmas\<close>

lemma unix_mono: "a \<le> b \<Longrightarrow> unix a \<le> unix b"
  by (simp add: unix_def zdiv_mono1)

lemma unix_less_imp_less: "unix a < unix b \<Longrightarrow> a < b"
  using unix_mono [of b a] by linarith

lemma reducePlays_error:
  "fst (reducePlays (reduceStep valid l n) acc ps)
     = (if list_all (datedWhenValid valid) ps then None else Some TypeError)"
  by (induction ps arbitrary: acc)
     (auto simp: reduceStep_def datedWhenValid_def split: option.splits)

lemma reducePlays_last_cases:
  "lastTrackPlayedAt (snd (reducePlays (reduceStep valid l n) acc ps)) = lastTrackPlayedAt acc
   \<or> (unix l < unix (lastTrackPlayedAt (snd (reducePlays (reduceStep valid l n) acc ps)))
      \<and> (\<exists>p\<in>set ps. valid p \<and> playDate (data p)
             = Some (lastTrackPlayedAt (snd (reducePlays (reduceStep valid l n) acc ps)))))"
proof (induction ps arbitrary: acc)
  case Nil
  then show ?case by simp
next
  case (Cons p ps)
  show ?case
  proof (cases "reduceStep valid l n acc p")
    case (Inl e)
    then show ?thesis by simp
  next
    case (Inr acc')
    have step: "lastTrackPlayedAt acc' = lastTrackPlayedAt acc
        \<or> (unix l < unix (lastTrackPlayedAt acc') \<and> valid p \<and> playDate (data p) = Some (lastTrackPlayedAt acc'))"
      using Inr by (auto simp: reduceStep_def split: option.splits if_splits)
    from Cons.IH [of acc'] step Inr show ?thesis by auto
  qed
qed

lemma reducePlays_closeToInterval:
  "list_all (datedWhenValid valid) ps \<Longrightarrow>
   closeToInterval (snd (reducePlays (reduceStep valid l n) acc ps))
     = (closeToInterval acc \<or> (\<exists>p\<in>set ps. isNewPlay valid l p \<and> \<bar>unix n - playUnix p\<bar> < 5))"
  by (induction ps arbitrary: acc)
     (auto simp: reduceStep_def datedWhenValid_def isNewPlay_def playUnix_def split: option.splits)

lemma reducePlays_newTracksFound:
  "list_all (datedWhenValid valid) ps \<Longrightarrow>
   newTracksFound (snd (reducePlays (reduceStep valid l n) acc ps))
     = (newTracksFound acc \<or> (\<exists>p\<in>set ps. isNewPlay valid l p))"
  by (induction ps arbitrary: acc)
     (auto simp: reduceStep_def datedWhenValid_def isNewPlay_def split: option.splits)

lemma reducePlays_logged:
  "list_all (datedWhenValid valid) ps \<Longrightarrow>
   logged (snd (reducePlays (reduceStep valid l n) acc ps))
     = logged acc @ map (\<lambda>p. LogInfo (NewTrackMsg p)) (filter (isNewPlay valid l) ps)"
  by (induction ps arbitrary: acc)
     (auto simp: reduceStep_def datedWhenValid_def isNewPlay_def split: option.splits)

lemma reducePlays_plays:
  "list_all (datedWhenValid valid) ps \<Longrightarrow>
   plays (snd (reducePlays (reduceStep valid l n) acc ps))
     = plays acc @ map (\<lambda>p. if isNewPlay valid l p
                              then p\<lparr>meta := (meta p)\<lparr>newFromSource := Some True\<rparr>\<rparr> else p)
                      (filter valid ps)"
  by (induction ps arbitrary: acc)
     (auto simp: reduceStep_def datedWhenValid_def isNewPlay_def split: option.splits)

lemma effects_append: "effects (xs @ ys) = effects xs @ effects ys"
  by (simp add: effects_def)

lemma finishCycle_last:
  "curLastTrackPlayedAt (fst (snd (finishCycle src env st1 info))) = lastTrackPlayedAt info"
  by (cases "scrobble env (plays info) \<lparr>forceRefresh = closeToInterval info,
                 scrobbleFrom = sourceIdentifier src, scrobbleTo = clients src\<rparr>")
     (simp_all add: finishCycle_def Let_def)

lemma finishCycle_effects:
  "effects (snd (snd (finishCycle src env st1 info)))
     = (if closeToInterval info then [Sleep 10000] else [])
       @ [Scrobble (plays info) \<lparr>forceRefresh = closeToInterval info,
                                  scrobbleFrom = sourceIdentifier src, scrobbleTo = clients src\<rparr>]
       @ (case fst (finishCycle src env st1 info) of
            Some e \<Rightarrow> []
          | None \<Rightarrow> [Sleep (sleepTimeOf (configInterval src)
                               (checkCount (fst (snd (finishCycle src env st1 info)))) (now env)
                               (lastTrackPlayedAt info) * 1000)])"
  by (cases "scrobble env (plays info) \<lparr>forceRefresh = closeToInterval info,
                 scrobbleFrom = sourceIdentifier src, scrobbleTo = clients src\<rparr>")
     (simp_all add: finishCycle_def Let_def effects_def)

lemma finishCycle_raised:
  "fst (finishCycle src env st1 info)
     = (case scrobble env (plays info) \<lparr>forceRefresh = closeToInterval info,
                                  scrobbleFrom = sourceIdentifier src, scrobbleTo = clients src\<rparr> of
          Inl e \<Rightarrow> Some e | Inr res \<Rightarrow> None)"
  by (cases "scrobble env (plays info) \<lparr>forceRefresh = closeToInterval info,
                 scrobbleFrom = sourceIdentifier src, scrobbleTo = clients src\<rparr>")
     (simp_all add: finishCycle_def Let_def)

lemma finishCycle_newPlaysOf:
  "newPlaysOf (snd (snd (finishCycle src env st1 info))) = []"
  by (cases "scrobble env (plays info) \<lparr>forceRefresh = closeToInterval info,
                 scrobbleFrom = sourceIdentifier src, scrobbleTo = clients src\<rparr>")
     (simp_all add: finishCycle_def Let_def)

lemma finishCycle_sleep:
  "fst (finishCycle src env st1 info) = None \<Longrightarrow>
   \<exists>pre. snd (snd (finishCycle src env st1 info))
      = pre @ [LogDebug (SleepingMsg (sleepTimeOf (configInterval src)
                               (checkCount (fst (snd (finishCycle src env st1 info)))) (now env)
                               (curLastTrackPlayedAt (fst (snd (finishCycle src env st1 info)))))),
               Sleep (sleepTimeOf (configInterval src)
                               (checkCount (fst (snd (finishCycle src env st1 info)))) (now env)
                               (curLastTrackPlayedAt (fst (snd (finishCycle src env st1 info)))) * 1000)]"
  by (cases "scrobble env (plays info) \<lparr>forceRefresh = closeToInterval info,
                 scrobbleFrom = sourceIdentifier src, scrobbleTo = clients src\<rparr>")
     (simp_all add: finishCycle_def Let_def)

text \<open>The iteration, case by case.\<close>

lemma pollCycle_fetch_error:
  "fetched env = Inl e \<Longrightarrow>
   pollCycle src env st = (Some e, st, [LogDebug (Text ''Refreshing recently played'')])"
  by (simp add: pollCycle_def)

lemma pollCycle_cases:
  assumes "fetched env = Inr ps"
  shows "pollCycle src env st =
     (let info = snd (reducePlays (reduceStep (isValid src) (curLastTrackPlayedAt st) (now env))
                   \<lparr>plays = [], lastTrackPlayedAt = curLastTrackPlayedAt st,
                    newTracksFound = False, closeToInterval = False, logged = []\<rparr> ps);
          st1 = st\<lparr>checkCount := checkCount st + 1\<rparr>
      in if list_all (datedWhenValid (isValid src)) ps
         then (fst (finishCycle src env st1 info),
               fst (snd (finishCycle src env st1 info)),
               LogDebug (Text ''Refreshing recently played'') # logged info
                 @ snd (snd (finishCycle src env st1 info)))
         else (Some TypeError, st1, LogDebug (Text ''Refreshing recently played'') # logged info))"
proof -
  let ?init = "\<lparr>plays = [], lastTrackPlayedAt = curLastTrackPlayedAt st,
                    newTracksFound = False, closeToInterval = False, logged = []\<rparr>"
  let ?red = "reducePlays (reduceStep (isValid src) (curLastTrackPlayedAt st) (now env)) ?init ps"
  obtain r info where red: "?red = (r, info)"
    by (cases ?red) auto
  have "fst ?red = (if list_all (datedWhenValid (isValid src)) ps then None else Some TypeError)"
    by (rule reducePlays_error)
  then have r: "r = (if list_all (datedWhenValid (isValid src)) ps then None else Some TypeError)"
    by (simp add: red)
  show ?thesis
    by (simp add: pollCycle_def assms red r Let_def split: prod.splits)
qed

lemma pollCycle_last_cases:
  "curLastTrackPlayedAt (fst (snd (pollCycle src env st))) = curLastTrackPlayedAt st
   \<or> (unix (curLastTrackPlayedAt st) < unix (curLastTrackPlayedAt (fst (snd (pollCycle src env st))))
      \<and> (\<exists>ps p. fetched env = Inr ps \<and> p \<in> set ps \<and> isValid src p
            \<and> playDate (data p) = Some (curLastTrackPlayedAt (fst (snd (pollCycle src env st))))))"
proof (cases "fetched env")
  case (Inl e)
  then show ?thesis by (simp add: pollCycle_fetch_error)
next
  case (Inr ps)
  let ?init = "\<lparr>plays = [], lastTrackPlayedAt = curLastTrackPlayedAt st,
                    newTracksFound = False, closeToInterval = False, logged = []\<rparr>"
  let ?info = "snd (reducePlays (reduceStep (isValid src) (curLastTrackPlayedAt st) (now env)) ?init ps)"
  show ?thesis
  proof (cases "list_all (datedWhenValid (isValid src)) ps")
    case True
    have eq: "curLastTrackPlayedAt (fst (snd (pollCycle src env st))) = lastTrackPlayedAt ?info"
      by (simp add: pollCycle_cases [OF Inr] True Let_def finishCycle_last)
    have "lastTrackPlayedAt ?info = lastTrackPlayedAt ?init
       \<or> (unix (curLastTrackPlayedAt st) < unix (lastTrackPlayedAt ?info)
          \<and> (\<exists>p\<in>set ps. isValid src p \<and> playDate (data p) = Some (lastTrackPlayedAt ?info)))"
      by (rule reducePlays_last_cases)
    then show ?thesis unfolding eq using Inr by auto
  next
    case False
    then show ?thesis by (simp add: pollCycle_cases [OF Inr] Let_def)
  qed
qed

lemma pollCycle_last_mono:
  "curLastTrackPlayedAt st \<le> curLastTrackPlayedAt (fst (snd (pollCycle src env st)))"
  using pollCycle_last_cases [of src env st] unix_less_imp_less
  by (metis order.refl order_less_imp_le)

lemma pollLoop_last_mono:
  "curLastTrackPlayedAt st \<le> curLastTrackPlayedAt (runState (pollLoop src envs st))"
proof (induction envs arbitrary: st)
  case Nil
  then show ?case by simp
next
  case (Cons env envs)
  show ?case
  proof (cases "polling st")
    case False
    then show ?thesis by simp
  next
    case True
    obtain r st' evs where c: "pollCycle src env st = (r, st', evs)"
      by (cases "pollCycle src env st") auto
    have le: "curLastTrackPlayedAt st \<le> curLastTrackPlayedAt st'"
      using pollCycle_last_mono [of st src env] c by simp
    show ?thesis
    proof (cases r)
      case None
      have "curLastTrackPlayedAt (st'\<lparr>trace := trace st' @ evs\<rparr>)
              \<le> curLastTrackPlayedAt (runState (pollLoop src envs (st'\<lparr>trace := trace st' @ evs\<rparr>)))"
        by (rule Cons.IH)
      then show ?thesis using True c None le by simp
    next
      case (Some e)
      then show ?thesis using True c le by simp
    qed
  qed
qed

text \<open>
  C3: in every iteration, whatever is fetched, \<open>lastTrackPlayedAt\<close> after the
  newness-detection step is at least what it was before, in milliseconds and in whole
  seconds. It either keeps its value or becomes the play date of a valid fetched play
  whose second is strictly after the value at the start of the iteration. Over any run of
  the loop from any state it never falls below the value it had.
\<close>

theorem lastTrackPlayedAt_never_regresses:
  "curLastTrackPlayedAt st \<le> curLastTrackPlayedAt (fst (snd (pollCycle src env st)))
   \<and> unix (curLastTrackPlayedAt st) \<le> unix (curLastTrackPlayedAt (fst (snd (pollCycle src env st))))
   \<and> (curLastTrackPlayedAt (fst (snd (pollCycle src env st))) = curLastTrackPlayedAt st
      \<or> (unix (curLastTrackPlayedAt st) < unix (curLastTrackPlayedAt (fst (snd (pollCycle src env st))))
         \<and> (\<exists>ps p. fetched env = Inr ps \<and> p \<in> set ps \<and> isValid src p
               \<and> playDate (data p) = Some (curLastTrackPlayedAt (fst (snd (pollCycle src env st)))))))
   \<and> curLastTrackPlayedAt st \<le> curLastTrackPlayedAt (runState (pollLoop src envs st))"
  using pollCycle_last_mono [of st src env] pollCycle_last_cases [of src env st]
        pollLoop_last_mono [of st src envs] unix_mono
  by blast

lemmas sample_defs = sampleSource_def idleState_def mkEnv_def mkPlay_def recentlyPlayedTrackIsValid_def
lemmas cycle_defs = pollCycle_def finishCycle_def reduceStep_def sleepTimeOf_def unix_def Let_def

theorem lastTrackPlayedAt_never_regresses_witness:
  "curLastTrackPlayedAt (idleState\<lparr>polling := True\<rparr>)
     \<le> curLastTrackPlayedAt (fst (snd (pollCycle sampleSource
            (mkEnv (Inr [mkPlay ''a1'' ''A'' [''x''] (Some 60000), mkPlay ''b1'' ''B'' [''x''] (Some 30000)]) 61000)
            (idleState\<lparr>polling := True\<rparr>))))
   \<and> curLastTrackPlayedAt (fst (snd (pollCycle sampleSource
            (mkEnv (Inr [mkPlay ''a1'' ''A'' [''x''] (Some 60000), mkPlay ''b1'' ''B'' [''x''] (Some 30000)]) 61000)
            (idleState\<lparr>polling := True\<rparr>)))) = 30000"
  using lastTrackPlayedAt_never_regresses
    [of "idleState\<lparr>polling := True\<rparr>" sampleSource
        "mkEnv (Inr [mkPlay ''a1'' ''A'' [''x''] (Some 60000), mkPlay ''b1'' ''B'' [''x''] (Some 30000)]) 61000" "[]"]
  by (simp add: sample_defs cycle_defs)

lemma sleepTimeOf_eq:
  "sleepTimeOf cfg count nowT lastT =
     (if count > 5 \<and> (case cfg of None \<Rightarrow> 30 | Some i \<Rightarrow> i) < 600
         \<and> \<bar>unix nowT - unix lastT\<bar> \<ge> min ((case cfg of None \<Rightarrow> 30 | Some i \<Rightarrow> i) * 10) 600
      then min ((case cfg of None \<Rightarrow> 30 | Some i \<Rightarrow> i) * 5) 300
      else (case cfg of None \<Rightarrow> 30 | Some i \<Rightarrow> i))"
  by (simp add: sleepTimeOf_def Let_def)

lemma pollCycle_sleep:
  assumes "fst (pollCycle src env st) = None"
  shows "\<exists>pre. snd (snd (pollCycle src env st))
      = pre @ [LogDebug (SleepingMsg (sleepTimeOf (configInterval src)
                               (checkCount (fst (snd (pollCycle src env st)))) (now env)
                               (curLastTrackPlayedAt (fst (snd (pollCycle src env st)))))),
               Sleep (sleepTimeOf (configInterval src)
                               (checkCount (fst (snd (pollCycle src env st)))) (now env)
                               (curLastTrackPlayedAt (fst (snd (pollCycle src env st)))) * 1000)]"
proof (cases "fetched env")
  case (Inl e)
  then show ?thesis using assms by (simp add: pollCycle_fetch_error)
next
  case (Inr ps)
  let ?init = "\<lparr>plays = [], lastTrackPlayedAt = curLastTrackPlayedAt st,
                    newTracksFound = False, closeToInterval = False, logged = []\<rparr>"
  let ?info = "snd (reducePlays (reduceStep (isValid src) (curLastTrackPlayedAt st) (now env)) ?init ps)"
  let ?fin = "finishCycle src env (st\<lparr>checkCount := checkCount st + 1\<rparr>) ?info"
  have dated: "list_all (datedWhenValid (isValid src)) ps"
    using assms by (simp add: pollCycle_cases [OF Inr] Let_def split: if_splits)
  have eq: "pollCycle src env st
      = (fst ?fin, fst (snd ?fin), LogDebug (Text ''Refreshing recently played'') # logged ?info @ snd (snd ?fin))"
    by (simp add: pollCycle_cases [OF Inr] dated Let_def)
  have "fst ?fin = None" using assms eq by simp
  from finishCycle_sleep [OF this] obtain pre where
    pre: "snd (snd ?fin) = pre @ [LogDebug (SleepingMsg (sleepTimeOf (configInterval src)
                               (checkCount (fst (snd ?fin))) (now env)
                               (curLastTrackPlayedAt (fst (snd ?fin))))),
               Sleep (sleepTimeOf (configInterval src)
                               (checkCount (fst (snd ?fin))) (now env)
                               (curLastTrackPlayedAt (fst (snd ?fin))) * 1000)]"
    by blast
  show ?thesis
    by (rule exI [of _ "LogDebug (Text ''Refreshing recently played'') # logged ?info @ pre"])
       (simp add: eq pre)
qed

lemma quiet_backoff_scenario:
  "sleepsOf (trace (runState (startPolling sampleSource 0
      [mkEnv (Inr []) 3600000, mkEnv (Inr []) 3630000, mkEnv (Inr []) 3660000, mkEnv (Inr []) 3690000,
       mkEnv (Inr []) 3720000, mkEnv (Inr []) 3750000, mkEnv (Inr []) 3780000] idleState)))
   = [30000, 30000, 30000, 30000, 30000, 150000, 150000]"
  by (simp add: startPolling_def sample_defs cycle_defs)

text \<open>
  C4: an iteration that completes ends with a sleep of \<open>interval\<close> seconds (30 when the
  configuration has none), except that it sleeps \<open>min (interval * 5) 300\<close> seconds when
  \<open>checkCount > 5\<close>, \<open>interval < 600\<close> and \<open>lastTrackPlayedAt\<close> is at least
  \<open>min (interval * 10) 600\<close> seconds away from \<open>now\<close>. With \<open>interval = 30\<close>, seven
  empty iterations and \<open>lastTrackPlayedAt\<close> one hour in the past, the seventh sleeps 150
  seconds (so does the sixth, whose \<open>checkCount\<close> is already 6).
\<close>

theorem adaptive_sleep:
  "(let interval = (case configInterval src of None \<Rightarrow> 30 | Some i \<Rightarrow> i);
        st' = fst (snd (pollCycle src env st));
        sleepTime = (if checkCount st' > 5 \<and> interval < 600
                        \<and> \<bar>unix (now env) - unix (curLastTrackPlayedAt st')\<bar> \<ge> min (interval * 10) 600
                     then min (interval * 5) 300
                     else interval)
    in fst (pollCycle src env st) = None \<longrightarrow>
         (\<exists>pre. snd (snd (pollCycle src env st))
                  = pre @ [LogDebug (SleepingMsg sleepTime), Sleep (sleepTime * 1000)]))
   \<and> sleepsOf (trace (runState (startPolling sampleSource 0
        [mkEnv (Inr []) 3600000, mkEnv (Inr []) 3630000, mkEnv (Inr []) 3660000, mkEnv (Inr []) 3690000,
         mkEnv (Inr []) 3720000, mkEnv (Inr []) 3750000, mkEnv (Inr []) 3780000] idleState)))
      = [30000, 30000, 30000, 30000, 30000, 150000, 150000]"
proof -
  have "\<exists>pre. snd (snd (pollCycle src env st))
      = pre @ [LogDebug (SleepingMsg (sleepTimeOf (configInterval src)
                               (checkCount (fst (snd (pollCycle src env st)))) (now env)
                               (curLastTrackPlayedAt (fst (snd (pollCycle src env st)))))),
               Sleep (sleepTimeOf (configInterval src)
                               (checkCount (fst (snd (pollCycle src env st)))) (now env)
                               (curLastTrackPlayedAt (fst (snd (pollCycle src env st)))) * 1000)]"
    if "fst (pollCycle src env st) = None"
    using that by (rule pollCycle_sleep)
  then show ?thesis
    unfolding sleepTimeOf_eq Let_def using quiet_backoff_scenario by simp
qed

theorem adaptive_sleep_witness:
  "fst (pollCycle sampleSource (mkEnv (Inr []) 3600000) (idleState\<lparr>polling := True, checkCount := 6\<rparr>)) = None
   \<and> snd (snd (pollCycle sampleSource (mkEnv (Inr []) 3600000) (idleState\<lparr>polling := True, checkCount := 6\<rparr>)))
     = [LogDebug (Text ''Refreshing recently played''),
        LogDebug (Text ''No new tracks found and no tracks returned from API''),
        Scrobble [] \<lparr>forceRefresh = False, scrobbleFrom = ''Lastfm - sample'', scrobbleTo = [''maloja'']\<rparr>,
        LogDebug (SleepingMsg 150), Sleep 150000]
   \<and> fst (pollCycle sampleSource (mkEnv (Inr []) 3600000) (idleState\<lparr>polling := True, checkCount := 4\<rparr>)) = None
   \<and> snd (snd (pollCycle sampleSource (mkEnv (Inr []) 3600000) (idleState\<lparr>polling := True, checkCount := 4\<rparr>)))
     = [LogDebug (Text ''Refreshing recently played''),
        LogDebug (Text ''No new tracks found and no tracks returned from API''),
        Scrobble [] \<lparr>forceRefresh = False, scrobbleFrom = ''Lastfm - sample'', scrobbleTo = [''maloja'']\<rparr>,
        LogDebug (SleepingMsg 30), Sleep 30000]"
  using adaptive_sleep [of sampleSource "mkEnv (Inr []) 3600000" "idleState\<lparr>polling := True, checkCount := 6\<rparr>"]
        adaptive_sleep [of sampleSource "mkEnv (Inr []) 3600000" "idleState\<lparr>polling := True, checkCount := 4\<rparr>"]
  by (simp add: sample_defs cycle_defs)

lemma effects_logInfo: "effects (map (\<lambda>p. LogInfo (f p)) xs) = []"
  by (induction xs) (simp_all add: effects_def)

lemma pollCycle_effects:
  assumes "fetched env = Inr ps" and "list_all (datedWhenValid (isValid src)) ps"
  shows "effects (snd (snd (pollCycle src env st)))
     = (if (\<exists>p\<in>set ps. isNewPlay (isValid src) (curLastTrackPlayedAt st) p
                         \<and> \<bar>unix (now env) - playUnix p\<bar> < 5)
        then [Sleep (10 * 1000)] else [])
       @ [Scrobble (map (\<lambda>p. if isNewPlay (isValid src) (curLastTrackPlayedAt st) p
                               then p\<lparr>meta := (meta p)\<lparr>newFromSource := Some True\<rparr>\<rparr> else p)
                        (filter (isValid src) ps))
            \<lparr>forceRefresh = (\<exists>p\<in>set ps. isNewPlay (isValid src) (curLastTrackPlayedAt st) p
                                        \<and> \<bar>unix (now env) - playUnix p\<bar> < 5),
             scrobbleFrom = sourceIdentifier src, scrobbleTo = clients src\<rparr>]
       @ (case fst (pollCycle src env st) of
            Some e \<Rightarrow> []
          | None \<Rightarrow> [Sleep (sleepTimeOf (configInterval src)
                               (checkCount (fst (snd (pollCycle src env st)))) (now env)
                               (curLastTrackPlayedAt (fst (snd (pollCycle src env st)))) * 1000)])"
proof -
  let ?init = "\<lparr>plays = [], lastTrackPlayedAt = curLastTrackPlayedAt st,
                    newTracksFound = False, closeToInterval = False, logged = []\<rparr>"
  let ?info = "snd (reducePlays (reduceStep (isValid src) (curLastTrackPlayedAt st) (now env)) ?init ps)"
  let ?fin = "finishCycle src env (st\<lparr>checkCount := checkCount st + 1\<rparr>) ?info"
  have eq: "pollCycle src env st
      = (fst ?fin, fst (snd ?fin), LogDebug (Text ''Refreshing recently played'') # logged ?info @ snd (snd ?fin))"
    by (simp add: pollCycle_cases [OF assms(1)] assms(2) Let_def)
  have lg: "effects (logged ?info) = []"
    by (simp add: reducePlays_logged [OF assms(2)] effects_logInfo)
  have ef: "effects (snd (snd (pollCycle src env st))) = effects (snd (snd ?fin))"
    unfolding eq using lg by (simp add: effects_def)
  have cl: "closeToInterval ?info
      = (\<exists>p\<in>set ps. isNewPlay (isValid src) (curLastTrackPlayedAt st) p \<and> \<bar>unix (now env) - playUnix p\<bar> < 5)"
    by (simp add: reducePlays_closeToInterval [OF assms(2)])
  have pl: "plays ?info
      = map (\<lambda>p. if isNewPlay (isValid src) (curLastTrackPlayedAt st) p
                               then p\<lparr>meta := (meta p)\<lparr>newFromSource := Some True\<rparr>\<rparr> else p)
                        (filter (isValid src) ps)"
    by (simp add: reducePlays_plays [OF assms(2)])
  have st: "fst (snd (pollCycle src env st)) = fst (snd ?fin)" and r: "fst (pollCycle src env st) = fst ?fin"
    by (simp_all add: eq)
  have la: "curLastTrackPlayedAt (fst (snd ?fin)) = lastTrackPlayedAt ?info"
    by (rule finishCycle_last)
  show ?thesis
    unfolding ef st r la finishCycle_effects cl pl by simp
qed

text \<open>
  C5: in an iteration that reaches the dispatch, when some play flagged new in it is less
  than 5 seconds away from \<open>now\<close> the poller sleeps 10 seconds before it calls the
  dispatcher and passes \<open>forceRefresh = true\<close>; otherwise nothing suspends it before the
  dispatch and it passes \<open>forceRefresh = false\<close>. The only later effect is the sleep
  between iterations.
\<close>

theorem close_to_interval_delay:
  assumes "fetched env = Inr ps" and "list_all (datedWhenValid (isValid src)) ps"
  shows "effects (snd (snd (pollCycle src env st)))
     = (if (\<exists>p\<in>set ps. isNewPlay (isValid src) (curLastTrackPlayedAt st) p
                         \<and> \<bar>unix (now env) - playUnix p\<bar> < 5)
        then [Sleep (10 * 1000)] else [])
       @ [Scrobble (map (\<lambda>p. if isNewPlay (isValid src) (curLastTrackPlayedAt st) p
                               then p\<lparr>meta := (meta p)\<lparr>newFromSource := Some True\<rparr>\<rparr> else p)
                        (filter (isValid src) ps))
            \<lparr>forceRefresh = (\<exists>p\<in>set ps. isNewPlay (isValid src) (curLastTrackPlayedAt st) p
                                        \<and> \<bar>unix (now env) - playUnix p\<bar> < 5),
             scrobbleFrom = sourceIdentifier src, scrobbleTo = clients src\<rparr>]
       @ (case fst (pollCycle src env st) of
            Some e \<Rightarrow> []
          | None \<Rightarrow> [Sleep (sleepTimeOf (configInterval src)
                               (checkCount (fst (snd (pollCycle src env st)))) (now env)
                               (curLastTrackPlayedAt (fst (snd (pollCycle src env st)))) * 1000)])"
  using assms by (rule pollCycle_effects)

theorem close_to_interval_delay_witness:
  "fetched (mkEnv (Inr [mkPlay ''a1'' ''A'' [''x''] (Some 60000)]) 62000)
     = Inr [mkPlay ''a1'' ''A'' [''x''] (Some 60000)]
   \<and> list_all (datedWhenValid (isValid sampleSource)) [mkPlay ''a1'' ''A'' [''x''] (Some 60000)]
   \<and> effects (snd (snd (pollCycle sampleSource (mkEnv (Inr [mkPlay ''a1'' ''A'' [''x''] (Some 60000)]) 62000)
                        (idleState\<lparr>polling := True\<rparr>))))
     = [Sleep 10000,
        Scrobble [(mkPlay ''a1'' ''A'' [''x''] (Some 60000))
                    \<lparr>meta := (meta (mkPlay ''a1'' ''A'' [''x''] (Some 60000)))\<lparr>newFromSource := Some True\<rparr>\<rparr>]
                 \<lparr>forceRefresh = True, scrobbleFrom = ''Lastfm - sample'', scrobbleTo = [''maloja'']\<rparr>,
        Sleep 30000]
   \<and> fetched (mkEnv (Inr [mkPlay ''a1'' ''A'' [''x''] (Some 60000)]) 70000)
     = Inr [mkPlay ''a1'' ''A'' [''x''] (Some 60000)]
   \<and> effects (snd (snd (pollCycle sampleSource (mkEnv (Inr [mkPlay ''a1'' ''A'' [''x''] (Some 60000)]) 70000)
                        (idleState\<lparr>polling := True\<rparr>))))
     = [Scrobble [(mkPlay ''a1'' ''A'' [''x''] (Some 60000))
                    \<lparr>meta := (meta (mkPlay ''a1'' ''A'' [''x''] (Some 60000)))\<lparr>newFromSource := Some True\<rparr>\<rparr>]
                 \<lparr>forceRefresh = False, scrobbleFrom = ''Lastfm - sample'', scrobbleTo = [''maloja'']\<rparr>,
        Sleep 30000]"
  using close_to_interval_delay [of "mkEnv (Inr [mkPlay ''a1'' ''A'' [''x''] (Some 60000)]) 62000"
          "[mkPlay ''a1'' ''A'' [''x''] (Some 60000)]" sampleSource "idleState\<lparr>polling := True\<rparr>"]
        close_to_interval_delay [of "mkEnv (Inr [mkPlay ''a1'' ''A'' [''x''] (Some 60000)]) 70000"
          "[mkPlay ''a1'' ''A'' [''x''] (Some 60000)]" sampleSource "idleState\<lparr>polling := True\<rparr>"]
  by (simp add: sample_defs cycle_defs effects_def datedWhenValid_def isNewPlay_def playUnix_def)

lemma reducePlays_last_bound:
  assumes "list_all (datedWhenValid valid) ps"
    and "sorted (map playUnix (filter valid ps))"
    and "unix l \<le> unix (lastTrackPlayedAt acc)"
  shows "\<forall>q\<in>set ps. valid q \<longrightarrow>
           playUnix q \<le> unix (lastTrackPlayedAt (snd (reducePlays (reduceStep valid l n) acc ps)))"
  using assms
proof (induction ps arbitrary: acc)
  case Nil
  then show ?case by simp
next
  case (Cons p ps)
  have dated: "list_all (datedWhenValid valid) ps" using Cons.prems(1) by simp
  show ?case
  proof (cases "valid p")
    case False
    have step: "reduceStep valid l n acc p = Inr acc" using False by (simp add: reduceStep_def)
    have srt: "sorted (map playUnix (filter valid ps))" using Cons.prems(2) False by simp
    from Cons.IH [OF dated srt Cons.prems(3)] False step show ?thesis by simp
  next
    case True
    have srt: "sorted (map playUnix (filter valid ps))" using Cons.prems(2) True by simp
    have le_later: "\<forall>q\<in>set ps. valid q \<longrightarrow> playUnix p \<le> playUnix q"
      using Cons.prems(2) True by auto
    obtain pd where pd: "playDate (data p) = Some pd"
      using Cons.prems(1) True by (auto simp: datedWhenValid_def)
    have pu: "playUnix p = unix pd" by (simp add: playUnix_def pd)
    show ?thesis
    proof (cases "unix pd > unix l")
      case new: True
      let ?acc' = "\<lparr>plays = plays acc @ [p\<lparr>meta := (meta p)\<lparr>newFromSource := Some True\<rparr>\<rparr>],
                    lastTrackPlayedAt = pd, newTracksFound = True,
                    closeToInterval = (if closeToInterval acc = False then \<bar>unix n - unix pd\<bar> < 5
                                       else closeToInterval acc),
                    logged = logged acc @ [LogInfo (NewTrackMsg p)]\<rparr>"
      let ?F = "lastTrackPlayedAt (snd (reducePlays (reduceStep valid l n) ?acc' ps))"
      have step: "reduceStep valid l n acc p = Inr ?acc'"
        using True new by (simp add: reduceStep_def pd)
      have ih: "\<forall>q\<in>set ps. valid q \<longrightarrow> playUnix q \<le> unix ?F"
        using Cons.IH [OF dated srt, of ?acc'] new by simp
      have "?F = lastTrackPlayedAt ?acc'
            \<or> (unix l < unix ?F \<and> (\<exists>q\<in>set ps. valid q \<and> playDate (data q) = Some ?F))"
        by (rule reducePlays_last_cases)
      then have "playUnix p \<le> unix ?F"
      proof
        assume "?F = lastTrackPlayedAt ?acc'"
        then show ?thesis by (simp add: pu)
      next
        assume "unix l < unix ?F \<and> (\<exists>q\<in>set ps. valid q \<and> playDate (data q) = Some ?F)"
        then obtain q where q: "q \<in> set ps" "valid q" "playDate (data q) = Some ?F" by blast
        have "playUnix q = unix ?F" using q(3) by (simp add: playUnix_def)
        then show ?thesis using le_later q(1,2) by force
      qed
      then show ?thesis using ih step by simp
    next
      case old: False
      let ?acc' = "acc\<lparr>plays := plays acc @ [p]\<rparr>"
      let ?F = "lastTrackPlayedAt (snd (reducePlays (reduceStep valid l n) ?acc' ps))"
      have step: "reduceStep valid l n acc p = Inr ?acc'"
        using True old by (simp add: reduceStep_def pd)
      have ih: "\<forall>q\<in>set ps. valid q \<longrightarrow> playUnix q \<le> unix ?F"
        using Cons.IH [OF dated srt, of ?acc'] Cons.prems(3) by simp
      have "?F = lastTrackPlayedAt ?acc'
            \<or> (unix l < unix ?F \<and> (\<exists>q\<in>set ps. valid q \<and> playDate (data q) = Some ?F))"
        by (rule reducePlays_last_cases)
      then have "unix l \<le> unix ?F" using Cons.prems(3) by auto
      then have "playUnix p \<le> unix ?F" using old pu by simp
      then show ?thesis using ih step by simp
    qed
  qed
qed

lemma no_new_play_after:
  assumes "\<forall>q\<in>set ps. valid q \<longrightarrow> playUnix q \<le> unix L"
  shows "filter (isNewPlay valid L) ps = []"
proof -
  have "\<not> isNewPlay valid L q" if "q \<in> set ps" for q
    using assms that by (fastforce simp: isNewPlay_def playUnix_def split: option.splits)
  then show ?thesis by (simp add: filter_empty_conv)
qed

lemma newPlaysOf_finish:
  "newPlaysOf (LogDebug m # snd (snd (finishCycle src env st1 info))) = []"
  by (simp add: finishCycle_newPlaysOf)

lemma same_fetch_cycle:
  assumes f: "fetched env = Inr ps" and f': "fetched env' = Inr ps"
    and srt: "sorted (map playUnix (filter (isValid src) ps))"
    and ok: "fst (pollCycle src env st) = None"
    and st1: "curLastTrackPlayedAt st1 = curLastTrackPlayedAt (fst (snd (pollCycle src env st)))"
  shows "curLastTrackPlayedAt (fst (snd (pollCycle src env' st1))) = curLastTrackPlayedAt st1
         \<and> newPlaysOf (snd (snd (pollCycle src env' st1))) = []
         \<and> (\<exists>rest. effects (snd (snd (pollCycle src env' st1)))
                = Scrobble (filter (isValid src) ps)
                    \<lparr>forceRefresh = False, scrobbleFrom = sourceIdentifier src,
                     scrobbleTo = clients src\<rparr> # rest)"
proof -
  let ?valid = "isValid src"
  let ?init = "\<lparr>plays = [], lastTrackPlayedAt = curLastTrackPlayedAt st,
                 newTracksFound = False, closeToInterval = False, logged = []\<rparr>"
  let ?info = "snd (reducePlays (reduceStep ?valid (curLastTrackPlayedAt st) (now env)) ?init ps)"
  let ?L = "curLastTrackPlayedAt st1"
  let ?init' = "\<lparr>plays = [], lastTrackPlayedAt = ?L,
                 newTracksFound = False, closeToInterval = False, logged = []\<rparr>"
  let ?info' = "snd (reducePlays (reduceStep ?valid ?L (now env')) ?init' ps)"
  let ?fin' = "finishCycle src env' (st1\<lparr>checkCount := checkCount st1 + 1\<rparr>) ?info'"
  have dated: "list_all (datedWhenValid ?valid) ps"
    using ok by (simp add: pollCycle_cases [OF f] Let_def split: if_splits)
  have L: "?L = lastTrackPlayedAt ?info"
    by (simp add: st1 pollCycle_cases [OF f] dated Let_def finishCycle_last)
  have "\<forall>q\<in>set ps. ?valid q \<longrightarrow> playUnix q \<le> unix (lastTrackPlayedAt ?info)"
    by (rule reducePlays_last_bound [OF dated srt]) simp
  then have bound: "\<forall>q\<in>set ps. ?valid q \<longrightarrow> playUnix q \<le> unix ?L"
    by (simp add: L)
  have none: "filter (isNewPlay ?valid ?L) ps = []"
    by (rule no_new_play_after [OF bound])
  have eq: "pollCycle src env' st1
      = (fst ?fin', fst (snd ?fin'),
         LogDebug (Text ''Refreshing recently played'') # logged ?info' @ snd (snd ?fin'))"
    by (simp add: pollCycle_cases [OF f'] dated Let_def)
  have lg: "logged ?info' = []"
    by (simp add: reducePlays_logged [OF dated] none)
  have news: "newPlaysOf (snd (snd (pollCycle src env' st1))) = []"
    by (simp add: eq lg finishCycle_newPlaysOf)
  have "lastTrackPlayedAt ?info' = lastTrackPlayedAt ?init'
        \<or> (unix ?L < unix (lastTrackPlayedAt ?info')
           \<and> (\<exists>p\<in>set ps. ?valid p \<and> playDate (data p) = Some (lastTrackPlayedAt ?info')))"
    by (rule reducePlays_last_cases)
  then have "lastTrackPlayedAt ?info' = ?L"
  proof
    assume "lastTrackPlayedAt ?info' = lastTrackPlayedAt ?init'"
    then show ?thesis by simp
  next
    assume a: "unix ?L < unix (lastTrackPlayedAt ?info')
           \<and> (\<exists>p\<in>set ps. ?valid p \<and> playDate (data p) = Some (lastTrackPlayedAt ?info'))"
    then obtain p where p: "p \<in> set ps" "?valid p" "playDate (data p) = Some (lastTrackPlayedAt ?info')"
      by blast
    have "playUnix p = unix (lastTrackPlayedAt ?info')" using p(3) by (simp add: playUnix_def)
    then have False using bound p(1,2) a by force
    then show ?thesis ..
  qed
  then have last: "curLastTrackPlayedAt (fst (snd (pollCycle src env' st1))) = ?L"
    by (simp add: eq finishCycle_last)
  have nonew: "\<not> isNewPlay ?valid ?L q" if "q \<in> set ps" for q
    using none that by (simp add: filter_empty_conv)
  have same: "map (\<lambda>p. if isNewPlay ?valid ?L p
                          then p\<lparr>meta := (meta p)\<lparr>newFromSource := Some True\<rparr>\<rparr> else p)
                 (filter ?valid ps) = filter ?valid ps"
    by (rule map_idI) (simp add: nonew)
  have noclose: "\<not> (\<exists>p\<in>set ps. isNewPlay ?valid ?L p \<and> \<bar>unix (now env') - playUnix p\<bar> < 5)"
    using nonew by blast
  have "\<exists>rest. effects (snd (snd (pollCycle src env' st1)))
                = Scrobble (filter ?valid ps)
                    \<lparr>forceRefresh = False, scrobbleFrom = sourceIdentifier src,
                     scrobbleTo = clients src\<rparr> # rest"
    unfolding pollCycle_effects [OF f' dated] same using noclose by simp
  then show ?thesis using news last by simp
qed

lemma same_history_twice:
  assumes "polling s"
    and "playsAreSortConsistent u (recentPlays items) (recentPlays items)"
  shows "getRecentlyPlayed u logDiff clock' (Inr items) (snd (getRecentlyPlayed u logDiff clock (Inr items) s))
           = (Inr [], snd (getRecentlyPlayed u logDiff clock (Inr items) s))"
proof (cases "playsAreSortConsistent u (recentlyPlayed s) (recentPlays items)")
  case True
  have "getRecentlyPlayed u logDiff clock (Inr items) s = (Inr [], s)"
    using assms(1) True by (simp add: getRecentlyPlayed_polling)
  then show ?thesis using assms(1) True by (simp add: getRecentlyPlayed_polling)
next
  case False
  let ?s1 = "snd (getRecentlyPlayed u logDiff clock (Inr items) s)"
  have "polling ?s1" and "recentlyPlayed ?s1 = recentPlays items"
    using assms(1) False by (simp_all add: getRecentlyPlayed_polling Let_def)
  then show ?thesis using assms(2) by (simp add: getRecentlyPlayed_polling)
qed

text \<open>
  C9, as the code has it: when an iteration completes and the next one fetches the same
  list, and the valid plays of that list are in oldest-first order of their play dates,
  the next iteration announces no new play and leaves \<open>lastTrackPlayedAt\<close> as it was.
  For the YTMusic source: when a window is sort-consistent with itself, a second
  \<open>getRecentlyPlayed\<close> over the same history returns no plays and changes nothing.
\<close>

theorem same_fetch_no_new_plays:
  "(fetched env = Inr ps \<and> fetched env' = Inr ps
      \<and> sorted (map playUnix (filter (isValid src) ps))
      \<and> fst (pollCycle src env st) = None
      \<and> curLastTrackPlayedAt st1 = curLastTrackPlayedAt (fst (snd (pollCycle src env st)))
    \<longrightarrow> curLastTrackPlayedAt (fst (snd (pollCycle src env' st1))) = curLastTrackPlayedAt st1
         \<and> newPlaysOf (snd (snd (pollCycle src env' st1))) = []
         \<and> (\<exists>rest. effects (snd (snd (pollCycle src env' st1)))
                = Scrobble (filter (isValid src) ps)
                    \<lparr>forceRefresh = False, scrobbleFrom = sourceIdentifier src,
                     scrobbleTo = clients src\<rparr> # rest))
   \<and> (polling s \<and> playsAreSortConsistent u (recentPlays items) (recentPlays items)
    \<longrightarrow> getRecentlyPlayed u logDiff clock' (Inr items) (snd (getRecentlyPlayed u logDiff clock (Inr items) s))
           = (Inr [], snd (getRecentlyPlayed u logDiff clock (Inr items) s)))"
  using same_fetch_cycle [of env ps env' src st st1]
        same_history_twice [of s u items logDiff clock' clock]
  by blast

theorem same_fetch_no_new_plays_witness:
  "fetched (mkEnv (Inr [mkPlay ''b1'' ''B'' [''x''] (Some 30000), mkPlay ''a1'' ''A'' [''x''] (Some 60000)]) 100000)
     = Inr [mkPlay ''b1'' ''B'' [''x''] (Some 30000), mkPlay ''a1'' ''A'' [''x''] (Some 60000)]
   \<and> sorted (map playUnix (filter (isValid sampleSource)
         [mkPlay ''b1'' ''B'' [''x''] (Some 30000), mkPlay ''a1'' ''A'' [''x''] (Some 60000)]))
   \<and> fst (pollCycle sampleSource
       (mkEnv (Inr [mkPlay ''b1'' ''B'' [''x''] (Some 30000), mkPlay ''a1'' ''A'' [''x''] (Some 60000)]) 100000)
       (idleState\<lparr>polling := True\<rparr>)) = None
   \<and> curLastTrackPlayedAt (fst (snd (pollCycle sampleSource
       (mkEnv (Inr [mkPlay ''b1'' ''B'' [''x''] (Some 30000), mkPlay ''a1'' ''A'' [''x''] (Some 60000)]) 130000)
       (fst (snd (pollCycle sampleSource
          (mkEnv (Inr [mkPlay ''b1'' ''B'' [''x''] (Some 30000), mkPlay ''a1'' ''A'' [''x''] (Some 60000)]) 100000)
          (idleState\<lparr>polling := True\<rparr>))))))) = 60000
   \<and> newPlaysOf (snd (snd (pollCycle sampleSource
       (mkEnv (Inr [mkPlay ''b1'' ''B'' [''x''] (Some 30000), mkPlay ''a1'' ''A'' [''x''] (Some 60000)]) 130000)
       (fst (snd (pollCycle sampleSource
          (mkEnv (Inr [mkPlay ''b1'' ''B'' [''x''] (Some 30000), mkPlay ''a1'' ''A'' [''x''] (Some 60000)]) 100000)
          (idleState\<lparr>polling := True\<rparr>))))))) = []
   \<and> polling (mkSource True (recentPlays [mkItem ''B'']))
   \<and> playsAreSortConsistent sampleUtils (recentPlays [mkItem ''A'', mkItem ''B''])
         (recentPlays [mkItem ''A'', mkItem ''B''])
   \<and> getRecentlyPlayed sampleUtils False (\<lambda>k. 185000)
        (Inr [mkItem ''A'', mkItem ''B''])
        (snd (getRecentlyPlayed sampleUtils False (\<lambda>k. 125000)
               (Inr [mkItem ''A'', mkItem ''B'']) (mkSource True (recentPlays [mkItem ''B'']))))
     = (Inr [], snd (getRecentlyPlayed sampleUtils False (\<lambda>k. 125000)
               (Inr [mkItem ''A'', mkItem ''B'']) (mkSource True (recentPlays [mkItem ''B'']))))"
  using same_fetch_no_new_plays
    [of "mkEnv (Inr [mkPlay ''b1'' ''B'' [''x''] (Some 30000), mkPlay ''a1'' ''A'' [''x''] (Some 60000)]) 100000"
        "[mkPlay ''b1'' ''B'' [''x''] (Some 30000), mkPlay ''a1'' ''A'' [''x''] (Some 60000)]"
        "mkEnv (Inr [mkPlay ''b1'' ''B'' [''x''] (Some 30000), mkPlay ''a1'' ''A'' [''x''] (Some 60000)]) 130000"
        sampleSource "idleState\<lparr>polling := True\<rparr>"
        "fst (snd (pollCycle sampleSource
          (mkEnv (Inr [mkPlay ''b1'' ''B'' [''x''] (Some 30000), mkPlay ''a1'' ''A'' [''x''] (Some 60000)]) 100000)
          (idleState\<lparr>polling := True\<rparr>)))"
        "mkSource True (recentPlays [mkItem ''B''])" sampleUtils "[mkItem ''A'', mkItem ''B'']"
        False "\<lambda>k. 185000" "\<lambda>k. 125000"]
  by (simp add: sample_defs cycle_defs playUnix_def getRecentlyPlayed_def sampleUtils_def
        recentPlays_def mkItem_def mkSource_def formatPlayObj_def stampNewPlays_def
        startOfMinute_def enumerate_eq_zip upt_rec)

text \<open>
  C9 as stated fails on a list that is not in oldest-first order: after an iteration over
  plays dated 60 s and 30 s, \<open>lastTrackPlayedAt\<close> is 30 s, and the next iteration over
  the same list announces the first play again and moves \<open>lastTrackPlayedAt\<close> to 60 s.
\<close>

theorem same_fetch_unsorted_counterexample:
  "fetched (mkEnv (Inr [mkPlay ''a1'' ''A'' [''x''] (Some 60000), mkPlay ''b1'' ''B'' [''x''] (Some 30000)]) 100000)
     = Inr [mkPlay ''a1'' ''A'' [''x''] (Some 60000), mkPlay ''b1'' ''B'' [''x''] (Some 30000)]
   \<and> fst (pollCycle sampleSource
       (mkEnv (Inr [mkPlay ''a1'' ''A'' [''x''] (Some 60000), mkPlay ''b1'' ''B'' [''x''] (Some 30000)]) 100000)
       (idleState\<lparr>polling := True\<rparr>)) = None
   \<and> curLastTrackPlayedAt (fst (snd (pollCycle sampleSource
       (mkEnv (Inr [mkPlay ''a1'' ''A'' [''x''] (Some 60000), mkPlay ''b1'' ''B'' [''x''] (Some 30000)]) 100000)
       (idleState\<lparr>polling := True\<rparr>)))) = 30000
   \<and> newPlaysOf (snd (snd (pollCycle sampleSource
       (mkEnv (Inr [mkPlay ''a1'' ''A'' [''x''] (Some 60000), mkPlay ''b1'' ''B'' [''x''] (Some 30000)]) 100000)
       (fst (snd (pollCycle sampleSource
          (mkEnv (Inr [mkPlay ''a1'' ''A'' [''x''] (Some 60000), mkPlay ''b1'' ''B'' [''x''] (Some 30000)]) 100000)
          (idleState\<lparr>polling := True\<rparr>))))))) = [mkPlay ''a1'' ''A'' [''x''] (Some 60000)]
   \<and> curLastTrackPlayedAt (fst (snd (pollCycle sampleSource
       (mkEnv (Inr [mkPlay ''a1'' ''A'' [''x''] (Some 60000), mkPlay ''b1'' ''B'' [''x''] (Some 30000)]) 100000)
       (fst (snd (pollCycle sampleSource
          (mkEnv (Inr [mkPlay ''a1'' ''A'' [''x''] (Some 60000), mkPlay ''b1'' ''B'' [''x''] (Some 30000)]) 100000)
          (idleState\<lparr>polling := True\<rparr>))))))) = 60000"
  by (simp add: sample_defs cycle_defs)

lemma pollLoop_Running_polling:
  "pollLoop src envs st = Running st1 \<Longrightarrow> polling st1"
proof (induction envs arbitrary: st)
  case Nil
  then show ?case by (simp split: if_splits)
next
  case (Cons env envs)
  then show ?case
    by (cases "pollCycle src env st") (auto split: if_splits option.splits)
qed

lemma pollLoop_append:
  "pollLoop src pre st = Running st1 \<Longrightarrow> pollLoop src (pre @ rest) st = pollLoop src rest st1"
proof (induction pre arbitrary: st)
  case Nil
  then show ?case by (cases rest) (simp_all split: if_splits)
next
  case (Cons env pre)
  then show ?case
    by (cases "pollCycle src env st") (auto split: if_splits option.splits)
qed

lemma pollLoop_raise:
  assumes "polling st1" and "fst (pollCycle src env st1) = Some e"
  shows "pollLoop src (env # rest) st1
     = Left (Some e) ((fst (snd (pollCycle src env st1)))
                        \<lparr>trace := trace (fst (snd (pollCycle src env st1))) @ snd (snd (pollCycle src env st1))\<rparr>)"
  using assms by (cases "pollCycle src env st1") simp

lemma startPolling_caught:
  assumes np: "polling st = False"
    and run: "startPolling src startNow pre st = Running st1"
    and exc: "fst (pollCycle src env st1) = Some e"
  shows "\<exists>st2 tr. startPolling src startNow (pre @ env # rest) st = Left None st2
            \<and> polling st2 = False
            \<and> trace st2 = tr @ [LogError (Text ''Error occurred while polling''), LogError (ErrorObject e)]"
proof -
  let ?st0 = "st\<lparr>trace := trace st @ [LogInfo (Text ''Polling started'')],
                 curLastTrackPlayedAt := startNow, checkCount := 0, polling := True\<rparr>"
  have loop: "pollLoop src pre ?st0 = Running st1"
    using np run by (simp add: startPolling_def split: run.splits option.splits)
  have p1: "polling st1" using loop by (rule pollLoop_Running_polling)
  have "pollLoop src (pre @ env # rest) ?st0 = pollLoop src (env # rest) st1"
    using loop by (rule pollLoop_append)
  then have "pollLoop src (pre @ env # rest) ?st0
     = Left (Some e) ((fst (snd (pollCycle src env st1)))
                        \<lparr>trace := trace (fst (snd (pollCycle src env st1))) @ snd (snd (pollCycle src env st1))\<rparr>)"
    by (simp only: pollLoop_raise [OF p1 exc])
  then show ?thesis using np by (simp add: startPolling_def)
qed

lemma pollCycle_dispatch_error:
  assumes "fetched env = Inr ps" and "list_all (datedWhenValid (isValid src)) ps"
    and "\<forall>playObjs opts. scrobble env playObjs opts = Inl e"
  shows "fst (pollCycle src env st) = Some e"
  using assms(3) by (simp add: pollCycle_cases [OF assms(1)] assms(2) Let_def finishCycle_raised)

text \<open>
  C8: let the loop be running after some iterations. If the fetch of the next iteration
  raises \<open>e\<close>, or its dispatcher does, the iteration raises \<open>e\<close>; and whenever an
  iteration raises \<open>e\<close>, \<open>startPolling\<close> returns without an exception, whatever
  iterations the environment still had: the loop has left, the last two log lines are the
  error message and \<open>e\<close>, and \<open>polling\<close> is false.
\<close>

theorem polling_exception_is_caught:
  assumes "polling st = False"
    and "startPolling src startNow pre st = Running st1"
  shows "(fetched env = Inl e \<longrightarrow> fst (pollCycle src env st1) = Some e)
       \<and> ((\<exists>ps. fetched env = Inr ps \<and> list_all (datedWhenValid (isValid src)) ps
                \<and> (\<forall>playObjs opts. scrobble env playObjs opts = Inl e))
            \<longrightarrow> fst (pollCycle src env st1) = Some e)
       \<and> (fst (pollCycle src env st1) = Some e \<longrightarrow>
            (\<exists>st2 tr. startPolling src startNow (pre @ env # rest) st = Left None st2
                \<and> polling st2 = False
                \<and> trace st2 = tr @ [LogError (Text ''Error occurred while polling''),
                                     LogError (ErrorObject e)]))"
proof (intro conjI impI)
  assume "fetched env = Inl e"
  then show "fst (pollCycle src env st1) = Some e" by (simp add: pollCycle_fetch_error)
next
  assume "\<exists>ps. fetched env = Inr ps \<and> list_all (datedWhenValid (isValid src)) ps
                \<and> (\<forall>playObjs opts. scrobble env playObjs opts = Inl e)"
  then show "fst (pollCycle src env st1) = Some e" using pollCycle_dispatch_error by blast
next
  assume "fst (pollCycle src env st1) = Some e"
  with assms show "\<exists>st2 tr. startPolling src startNow (pre @ env # rest) st = Left None st2
                \<and> polling st2 = False
                \<and> trace st2 = tr @ [LogError (Text ''Error occurred while polling''),
                                     LogError (ErrorObject e)]"
    by (rule startPolling_caught)
qed

theorem polling_exception_is_caught_witness:
  "polling idleState = False
   \<and> startPolling sampleSource 0 [mkEnv (Inr []) 30000] idleState
       = Running (runState (startPolling sampleSource 0 [mkEnv (Inr []) 30000] idleState))
   \<and> fst (pollCycle sampleSource (mkEnv (Inl (Thrown ''timeout'')) 60000)
            (runState (startPolling sampleSource 0 [mkEnv (Inr []) 30000] idleState)))
       = Some (Thrown ''timeout'')
   \<and> startPolling sampleSource 0
      [mkEnv (Inr []) 30000, mkEnv (Inl (Thrown ''timeout'')) 60000, mkEnv (Inr []) 90000] idleState
     = Left None
         \<lparr>polling = False, tracksDiscovered = 0, curLastTrackPlayedAt = 0, checkCount = 1,
          trace = [LogInfo (Text ''Polling started''),
                   LogDebug (Text ''Refreshing recently played''),
                   LogDebug (Text ''No new tracks found and no tracks returned from API''),
                   Scrobble [] \<lparr>forceRefresh = False, scrobbleFrom = ''Lastfm - sample'', scrobbleTo = [''maloja'']\<rparr>,
                   LogDebug (SleepingMsg 30), Sleep 30000,
                   LogDebug (Text ''Refreshing recently played''),
                   LogError (Text ''Error occurred while polling''),
                   LogError (ErrorObject (Thrown ''timeout''))]\<rparr>
   \<and> startPolling sampleSource 0 [] idleState
       = Running (runState (startPolling sampleSource 0 [] idleState))
   \<and> startPolling sampleSource 0
      [(mkEnv (Inr []) 30000)\<lparr>scrobble := (\<lambda>playObjs opts. Inl (Thrown ''client''))\<rparr>] idleState
     = Left None
        \<lparr>polling = False, tracksDiscovered = 0, curLastTrackPlayedAt = 0, checkCount = 1,
          trace = [LogInfo (Text ''Polling started''),
                   LogDebug (Text ''Refreshing recently played''),
                   LogDebug (Text ''No new tracks found and no tracks returned from API''),
                   Scrobble [] \<lparr>forceRefresh = False, scrobbleFrom = ''Lastfm - sample'', scrobbleTo = [''maloja'']\<rparr>,
                   LogError (Text ''Error occurred while polling''),
                   LogError (ErrorObject (Thrown ''client''))]\<rparr>"
  using polling_exception_is_caught
    [of idleState sampleSource 0 "[mkEnv (Inr []) 30000]"
        "runState (startPolling sampleSource 0 [mkEnv (Inr []) 30000] idleState)"
        "mkEnv (Inl (Thrown ''timeout'')) 60000" "Thrown ''timeout''" "[mkEnv (Inr []) 90000]"]
    polling_exception_is_caught
    [of idleState sampleSource 0 "[]"
        "runState (startPolling sampleSource 0 [] idleState)"
        "(mkEnv (Inr []) 30000)\<lparr>scrobble := (\<lambda>playObjs opts. Inl (Thrown ''client''))\<rparr>"
        "Thrown ''client''" "[]"]
  by (simp add: startPolling_def sample_defs cycle_defs)

end
